theory Spec2Isabelle
  imports Complex_Main
begin

section \<open>DScaleModel: one scale of the multi-scale discriminator\<close>

text \<open>
  The source is \<^verbatim>\<open>d_scale_model.py\<close>: the constructor \<^verbatim>\<open>DScaleModel.__init__\<close>,
  \<^verbatim>\<open>define_graph\<close>, which allocates the variables and builds the TensorFlow graph of the
  forward pass, and the nested function \<^verbatim>\<open>generate_predictions\<close>.
  Python integers are \<open>int\<close>, Python lists live in an object store so that aliasing is
  visible, every exception is a value of \<open>error\<close>, the graph is a term of type \<open>node\<close>,
  and 32-bit floats are idealised as \<open>real\<close>.
\<close>

subsection \<open>Errors and Python lists\<close>

datatype error = AssertionError | IndexError | TypeError | ValueError | InvalidArgumentError

definition and_then :: "error + 'a \<Rightarrow> ('a \<Rightarrow> error + 'b) \<Rightarrow> error + 'b" where
  "and_then m f = (case m of Inl e \<Rightarrow> Inl e | Inr x \<Rightarrow> f x)"

text \<open>\<^verbatim>\<open>xs[i]\<close>: a negative index counts from the end, an index out of range raises.\<close>

definition py_get :: "'a list \<Rightarrow> int \<Rightarrow> error + 'a" where
  "py_get xs i =
     (if 0 \<le> i \<and> i < int (length xs) then Inr (xs ! nat i)
      else if i < 0 \<and> - int (length xs) \<le> i then Inr (xs ! nat (int (length xs) + i))
      else Inl IndexError)"

text \<open>\<^verbatim>\<open>range(n)\<close>: empty when \<open>n \<le> 0\<close>.\<close>

definition py_range :: "int \<Rightarrow> nat list" where
  "py_range n = [0..<nat n]"

text \<open>\<^verbatim>\<open>for i in range(n): s = body(i, s)\<close>, stopping at the first exception.\<close>

fun for_loop :: "nat list \<Rightarrow> (nat \<Rightarrow> 's \<Rightarrow> error + 's) \<Rightarrow> 's \<Rightarrow> error + 's" where
  "for_loop [] body s = Inr s"
| "for_loop (i # js) body s =
     (case body i s of Inl e \<Rightarrow> Inl e | Inr s' \<Rightarrow> for_loop js body s')"

text \<open>
  The three list arguments of the constructor are references to list objects: the store
  maps a reference to the list it currently holds. A Python reference is never dangling, so
  the store is total.
\<close>

type_synonym ref = nat
type_synonym heap = "ref \<Rightarrow> int list"

text \<open>\<^verbatim>\<open>xs.insert(0, v)\<close> on the list object at \<open>r\<close>.\<close>

definition list_insert0 :: "heap \<Rightarrow> ref \<Rightarrow> int \<Rightarrow> heap" where
  "list_insert0 h r v = h(r := v # h r)"

subsection \<open>The collaborators imported from \<^verbatim>\<open>tfutils\<close> and \<^verbatim>\<open>constants\<close>\<close>

text \<open>
  \<^verbatim>\<open>constants.PADDING_D\<close> is one of TensorFlow's two padding policies; the constant is
  a parameter \<open>pad\<close> of every definition below.
\<close>

datatype padding = SAME | VALID

text \<open>
  Modelled from the spec: \<^verbatim>\<open>tfutils.conv_out_size\<close> is not part of the source file.
  The spec gives it as \<open>conv_out_size(input_dim, padding_policy, kernel_size, stride)\<close>,
  where "valid" shrinks the dimension by \<open>kernel_size - 1\<close> and "same" preserves it; the
  program only calls it with stride 1.
\<close>

definition conv_out_size :: "int \<Rightarrow> padding \<Rightarrow> int \<Rightarrow> int \<Rightarrow> int" where
  "conv_out_size i p k s = (case p of SAME \<Rightarrow> i | VALID \<Rightarrow> i - (k - 1))"

text \<open>
  A variable of the graph: its name and its static shape. Its value lives in the session
  and is read when the graph is evaluated.
\<close>

datatype vname = ConvW nat | ConvB nat | FcW nat | FcB nat

record variable =
  vname :: vname
  vshape :: "nat list"

text \<open>
  Modelled from the spec: the initialisers \<^verbatim>\<open>tfutils.w\<close> and \<^verbatim>\<open>tfutils.b\<close> are not
  part of the source file. The spec's ParameterStore allocates a tensor of the requested shape,
  and "failure to allocate (e.g. invalid non-positive dimension) is a fatal configuration
  error". The model returns the allocated shape; the initial values are whatever the session
  holds.
\<close>

definition w :: "int list \<Rightarrow> error + nat list" where
  "w shape = (if \<forall>d \<in> set shape. 0 < d then Inr (map nat shape) else Inl ValueError)"

definition b :: "int list \<Rightarrow> error + nat list" where
  "b shape = (if \<forall>d \<in> set shape. 0 < d then Inr (map nat shape) else Inl ValueError)"

subsection \<open>The TensorFlow graph and its static shapes\<close>

text \<open>
  Every tensor of this graph has the dynamic batch size as its first dimension, so a static
  shape is \<open>[None, m]\<close> (\<open>S2 m\<close>) or \<open>[None, ht, wd, ch]\<close> (\<open>S4 ht wd ch\<close>).
\<close>

datatype sshape = S2 nat | S4 nat nat nat

datatype node =
    Placeholder nat nat nat
  | Zeros nat
  | Conv2d node variable padding
  | Add node variable
  | Relu node
  | MaxPool node padding
  | Reshape node nat
  | MatMul node variable
  | Sigmoid node
  | ClipByValue node real real

text \<open>
  TensorFlow's size of a windowed output (convolution, pooling): with "valid" padding the
  window must fit into the input.
\<close>

definition windowed_output_size :: "padding \<Rightarrow> nat \<Rightarrow> nat \<Rightarrow> nat \<Rightarrow> error + nat" where
  "windowed_output_size pad n k stride =
     (case pad of
        VALID \<Rightarrow> if n < k then Inl ValueError else Inr ((n - k + stride) div stride)
      | SAME \<Rightarrow> Inr ((n + stride - 1) div stride))"

text \<open>Adding a rank-1 variable of length \<open>m\<close> to a tensor whose last dimension is \<open>d\<close>.\<close>

definition broadcast_dim :: "nat \<Rightarrow> nat \<Rightarrow> error + nat" where
  "broadcast_dim d m =
     (if d = m then Inr d else if d = 1 then Inr m else if m = 1 then Inr d
      else Inl ValueError)"

fun static_shape :: "node \<Rightarrow> error + sshape" where
  "static_shape (Placeholder ht wd ch) = Inr (S4 ht wd ch)"
| "static_shape (Zeros m) = Inr (S2 m)"
| "static_shape (Conv2d n v pad) =
     and_then (static_shape n) (\<lambda>s.
       case s of
         S2 m \<Rightarrow> Inl ValueError
       | S4 ht wd ch \<Rightarrow>
          (case vshape v of
             [kh, kw, ci, co] \<Rightarrow>
               if ch \<noteq> ci then Inl ValueError
               else and_then (windowed_output_size pad ht kh 1) (\<lambda>ht'.
                    and_then (windowed_output_size pad wd kw 1) (\<lambda>wd'.
                    Inr (S4 ht' wd' co)))
           | _ \<Rightarrow> Inl ValueError))"
| "static_shape (Add n v) =
     and_then (static_shape n) (\<lambda>s.
       case vshape v of
         [m] \<Rightarrow>
           (case s of
              S2 d \<Rightarrow> and_then (broadcast_dim d m) (\<lambda>d'. Inr (S2 d'))
            | S4 ht wd ch \<Rightarrow> and_then (broadcast_dim ch m) (\<lambda>ch'. Inr (S4 ht wd ch')))
       | _ \<Rightarrow> Inl ValueError)"
| "static_shape (Relu n) = static_shape n"
| "static_shape (MaxPool n pad) =
     and_then (static_shape n) (\<lambda>s.
       case s of
         S2 m \<Rightarrow> Inl ValueError
       | S4 ht wd ch \<Rightarrow>
           and_then (windowed_output_size pad ht 2 2) (\<lambda>ht'.
           and_then (windowed_output_size pad wd 2 2) (\<lambda>wd'.
           Inr (S4 ht' wd' ch))))"
| "static_shape (Reshape n m) = and_then (static_shape n) (\<lambda>s. Inr (S2 m))"
| "static_shape (MatMul n v) =
     and_then (static_shape n) (\<lambda>s.
       case s of
         S4 ht wd ch \<Rightarrow> Inl ValueError
       | S2 a \<Rightarrow>
          (case vshape v of
             [a', m] \<Rightarrow> if a = a' then Inr (S2 m) else Inl ValueError
           | _ \<Rightarrow> Inl ValueError))"
| "static_shape (Sigmoid n) = static_shape n"
| "static_shape (ClipByValue n lo hi) = static_shape n"

text \<open>
  Creating an operation runs shape inference on it and raises when the shapes do not fit.
\<close>

definition create_op :: "node \<Rightarrow> error + node" where
  "create_op g = and_then (static_shape g) (\<lambda>s. Inr g)"

text \<open>
  \<^verbatim>\<open>tf.placeholder(tf.float32, shape=[None, h, w, c])\<close>: a negative dimension is rejected.
\<close>

definition tf_placeholder :: "int \<Rightarrow> int \<Rightarrow> int \<Rightarrow> error + node" where
  "tf_placeholder ht wd ch =
     (if ht < 0 \<or> wd < 0 \<or> ch < 0 then Inl ValueError
      else Inr (Placeholder (nat ht) (nat wd) (nat ch)))"

text \<open>\<^verbatim>\<open>preds.get_shape().as_list()\<close>\<close>

definition as_list :: "sshape \<Rightarrow> nat option list" where
  "as_list s =
     (case s of S2 m \<Rightarrow> [None, Some m] | S4 ht wd ch \<Rightarrow> [None, Some ht, Some wd, Some ch])"

text \<open>A product with \<^verbatim>\<open>None\<close> is a \<^verbatim>\<open>TypeError\<close>; the program never reads index 0.\<close>

definition known_dim :: "nat option \<Rightarrow> error + nat" where
  "known_dim d = (case d of None \<Rightarrow> Inl TypeError | Some k \<Rightarrow> Inr k)"

subsection \<open>\<^verbatim>\<open>generate_predictions\<close>: building the graph of the forward pass\<close>

text \<open>
  One iteration of the convolution loop: the loop state is \<open>(preds, last_input)\<close>.
\<close>

definition conv_body ::
  "padding \<Rightarrow> variable list \<Rightarrow> variable list \<Rightarrow> nat \<Rightarrow> node \<times> node \<Rightarrow> error + node \<times> node" where
  "conv_body pad conv_ws conv_bs i st =
     (case st of (preds, last_input) \<Rightarrow>
        and_then (py_get conv_ws (int i)) (\<lambda>cw.
        and_then (create_op (Conv2d last_input cw pad)) (\<lambda>conv.
        and_then (py_get conv_bs (int i)) (\<lambda>cb.
        and_then (create_op (Add conv cb)) (\<lambda>biased.
        and_then (create_op (Relu biased)) (\<lambda>preds'.
        Inr (preds', preds')))))))"

definition convolutions ::
  "padding \<Rightarrow> variable list \<Rightarrow> variable list \<Rightarrow> node \<Rightarrow> node \<Rightarrow> error + node \<times> node" where
  "convolutions pad conv_ws conv_bs preds last_input =
     for_loop (py_range (int (length conv_ws))) (conv_body pad conv_ws conv_bs)
       (preds, last_input)"

definition pooling :: "padding \<Rightarrow> node \<Rightarrow> error + node" where
  "pooling pad preds = create_op (MaxPool preds pad)"

text \<open>
  \<^verbatim>\<open>shape = preds.get_shape().as_list()\<close> and
  \<^verbatim>\<open>tf.reshape(preds, [-1, shape[1] * shape[2] * shape[3]])\<close>.
\<close>

definition flatten :: "node \<Rightarrow> error + node" where
  "flatten preds =
     and_then (static_shape preds) (\<lambda>s.
     and_then (py_get (as_list s) 1) (\<lambda>d1.
     and_then (py_get (as_list s) 2) (\<lambda>d2.
     and_then (py_get (as_list s) 3) (\<lambda>d3.
     and_then (known_dim d1) (\<lambda>k1.
     and_then (known_dim d2) (\<lambda>k2.
     and_then (known_dim d3) (\<lambda>k3.
     create_op (Reshape preds (k1 * k2 * k3)))))))))"

text \<open>One iteration of the fully-connected loop.\<close>

definition fc_body :: "variable list \<Rightarrow> variable list \<Rightarrow> nat \<Rightarrow> node \<Rightarrow> error + node" where
  "fc_body fc_ws fc_bs i preds =
     and_then (py_get fc_ws (int i)) (\<lambda>fw.
     and_then (create_op (MatMul preds fw)) (\<lambda>mm.
     and_then (py_get fc_bs (int i)) (\<lambda>fb.
     and_then (create_op (Add mm fb)) (\<lambda>biased.
     if int i = int (length fc_ws) - 1 then create_op (Sigmoid biased)
     else create_op (Relu biased)))))"

definition fully_connected :: "variable list \<Rightarrow> variable list \<Rightarrow> node \<Rightarrow> error + node" where
  "fully_connected fc_ws fc_bs preds =
     for_loop (py_range (int (length fc_ws))) (fc_body fc_ws fc_bs) preds"

definition clip :: "node \<Rightarrow> error + node" where
  "clip preds = create_op (ClipByValue preds 0.1 0.9)"

definition generate_predictions ::
  "padding \<Rightarrow> node \<Rightarrow> variable list \<Rightarrow> variable list \<Rightarrow> variable list \<Rightarrow> variable list
     \<Rightarrow> error + node" where
  "generate_predictions pad input_frames conv_ws conv_bs fc_ws fc_bs =
     and_then (convolutions pad conv_ws conv_bs (Zeros 1) input_frames) (\<lambda>st.
     and_then (pooling pad (fst st)) (\<lambda>pooled.
     and_then (flatten pooled) (\<lambda>flat.
     and_then (fully_connected fc_ws fc_bs flat) (\<lambda>fc.
     clip fc))))"

subsection \<open>\<^verbatim>\<open>define_graph\<close>: the layer setup\<close>

record conv_setup =
  cs_ws :: "variable list"
  cs_bs :: "variable list"
  last_out_height :: int
  last_out_width :: int

text \<open>One iteration of the loop over \<^verbatim>\<open>range(len(self.kernel_sizes))\<close>.\<close>

definition conv_setup_body ::
  "padding \<Rightarrow> int list \<Rightarrow> int list \<Rightarrow> nat \<Rightarrow> conv_setup \<Rightarrow> error + conv_setup" where
  "conv_setup_body pad ks fms i st =
     and_then (py_get ks (int i)) (\<lambda>k.
     and_then (py_get fms (int i)) (\<lambda>cin.
     and_then (py_get fms (int i + 1)) (\<lambda>cout.
     and_then (w [k, k, cin, cout]) (\<lambda>wshape.
     and_then (b [cout]) (\<lambda>bshape.
     Inr \<lparr>cs_ws = cs_ws st @ [\<lparr>vname = ConvW i, vshape = wshape\<rparr>],
          cs_bs = cs_bs st @ [\<lparr>vname = ConvB i, vshape = bshape\<rparr>],
          last_out_height = conv_out_size (last_out_height st) pad k 1,
          last_out_width = conv_out_size (last_out_width st) pad k 1\<rparr>)))))"

text \<open>One iteration of the loop over \<^verbatim>\<open>range(len(self.fc_layer_sizes) - 1)\<close>.\<close>

definition fc_setup_body ::
  "int list \<Rightarrow> nat \<Rightarrow> variable list \<times> variable list \<Rightarrow> error + variable list \<times> variable list" where
  "fc_setup_body fcs i st =
     and_then (py_get fcs (int i)) (\<lambda>n_in.
     and_then (py_get fcs (int i + 1)) (\<lambda>n_out.
     and_then (w [n_in, n_out]) (\<lambda>wshape.
     and_then (b [n_out]) (\<lambda>bshape.
     Inr (fst st @ [\<lparr>vname = FcW i, vshape = wshape\<rparr>],
          snd st @ [\<lparr>vname = FcB i, vshape = bshape\<rparr>])))))"

text \<open>
  The object: the attributes set by \<^verbatim>\<open>__init__\<close> and \<^verbatim>\<open>define_graph\<close>, and the variable
  lists \<^verbatim>\<open>conv_ws\<close>, \<^verbatim>\<open>conv_bs\<close>, \<^verbatim>\<open>fc_ws\<close>, \<^verbatim>\<open>fc_bs\<close> that the closure
  \<^verbatim>\<open>generate_predictions\<close> captures. The list attributes are references: \<^verbatim>\<open>__init__\<close>
  stores the caller's objects, it does not copy them.
\<close>

record d_scale_model =
  scale_index :: int
  height :: int
  width :: int
  conv_layer_fms :: ref
  kernel_sizes :: ref
  fc_layer_sizes :: ref
  input_frames :: node
  conv_ws :: "variable list"
  conv_bs :: "variable list"
  fc_ws :: "variable list"
  fc_bs :: "variable list"
  preds :: node

text \<open>
  The part of \<^verbatim>\<open>define_graph\<close> before the insertion: the placeholder, the convolution
  setup loop and the number of flattened features. The source is Python 2, where \<^verbatim>\<open>/\<close> on
  integers is floor division.
\<close>

definition conv_setup_phase ::
  "padding \<Rightarrow> int \<Rightarrow> int \<Rightarrow> int list \<Rightarrow> int list \<Rightarrow> error + node \<times> conv_setup \<times> int" where
  "conv_setup_phase pad ht wd fms ks =
     and_then (py_get fms 0) (\<lambda>c0.
     and_then (tf_placeholder ht wd c0) (\<lambda>inp.
     and_then (for_loop (py_range (int (length ks))) (conv_setup_body pad ks fms)
                 \<lparr>cs_ws = [], cs_bs = [], last_out_height = ht, last_out_width = wd\<rparr>) (\<lambda>cs.
     and_then (py_get fms (- 1)) (\<lambda>c_last.
     Inr (inp, cs, (last_out_height cs div 2) * (last_out_width cs div 2) * c_last)))))"

definition define_graph ::
  "padding \<Rightarrow> heap \<Rightarrow> int \<Rightarrow> int \<Rightarrow> int \<Rightarrow> ref \<Rightarrow> ref \<Rightarrow> ref \<Rightarrow> (error + d_scale_model) \<times> heap" where
  "define_graph pad h si ht wd fms_r ks_r fc_r =
     (case conv_setup_phase pad ht wd (h fms_r) (h ks_r) of
        Inl e \<Rightarrow> (Inl e, h)
      | Inr (inp, cs, flat) \<Rightarrow>
          let h' = list_insert0 h fc_r flat in
          (and_then (for_loop (py_range (int (length (h' fc_r)) - 1)) (fc_setup_body (h' fc_r))
                       ([], [])) (\<lambda>fc.
           and_then (generate_predictions pad inp (cs_ws cs) (cs_bs cs) (fst fc) (snd fc)) (\<lambda>g.
           Inr \<lparr>scale_index = si, height = ht, width = wd,
                conv_layer_fms = fms_r, kernel_sizes = ks_r, fc_layer_sizes = fc_r,
                input_frames = inp,
                conv_ws = cs_ws cs, conv_bs = cs_bs cs, fc_ws = fst fc, fc_bs = snd fc,
                preds = g\<rparr>)),
           h'))"

text \<open>
  \<^verbatim>\<open>DScaleModel(scale_index, height, width, conv_layer_fms, kernel_sizes, fc_layer_sizes)\<close>:
  the result is the object or the exception, together with the store it leaves behind.
\<close>

definition DScaleModel ::
  "padding \<Rightarrow> heap \<Rightarrow> int \<Rightarrow> int \<Rightarrow> int \<Rightarrow> ref \<Rightarrow> ref \<Rightarrow> ref \<Rightarrow> (error + d_scale_model) \<times> heap" where
  "DScaleModel pad h si ht wd fms_r ks_r fc_r =
     (if int (length (h ks_r)) \<noteq> int (length (h fms_r)) - 1 then (Inl AssertionError, h)
      else define_graph pad h si ht wd fms_r ks_r fc_r)"

subsection \<open>Evaluating the graph\<close>

text \<open>
  Modelled from the spec: the source builds the graph and never evaluates it; the evaluation
  is done by TensorFlow's session, which is not part of the source. The values of the
  operations follow the spec's ForwardPassEngine (section 4.3, steps 1 to 5): convolution with
  stride 1 under the padding policy, a broadcast bias, \<open>max(0, x)\<close>, one 2x2 max-pooling
  with stride 2, the flattening "height-major, then width, then channel", \<open>x @ W + b\<close>,
  the logistic sigmoid \<open>1 / (1 + e^-x)\<close> and the clamp into \<open>[0.1, 0.9]\<close>. Floating-point
  numbers are idealised as reals.
\<close>

text \<open>
  Tensor values are nested lists: a vector, a matrix, or a rank-4 tensor (a batch of images
  in height, width, channel order, or a filter in height, width, in-channel, out-channel
  order). \<open>conforms t shape\<close> says that \<open>t\<close> is rectangular with these dimensions.
\<close>

datatype tval = V1 "real list" | V2 "real list list" | V4 "real list list list list"

type_synonym image = "real list list list"
type_synonym store = "vname \<Rightarrow> tval"

fun conforms :: "tval \<Rightarrow> nat list \<Rightarrow> bool" where
  "conforms (V1 xs) [a] = (length xs = a)"
| "conforms (V2 xs) [a, m] = (length xs = a \<and> (\<forall>r \<in> set xs. length r = m))"
| "conforms (V4 xs) [a, ht, wd, ch] =
     (length xs = a \<and>
      (\<forall>img \<in> set xs. length img = ht \<and>
         (\<forall>r \<in> set img. length r = wd \<and> (\<forall>px \<in> set r. length px = ch))))"
| "conforms _ _ = False"

text \<open>The shape of a value with static shape \<open>s\<close> in a batch of \<open>n\<close> examples.\<close>

definition dyn_shape :: "nat \<Rightarrow> sshape \<Rightarrow> nat list" where
  "dyn_shape n s = (case s of S2 m \<Rightarrow> [n, m] | S4 ht wd ch \<Rightarrow> [n, ht, wd, ch])"

definition relu :: "real \<Rightarrow> real" where
  "relu x = max x 0"

definition sigmoid :: "real \<Rightarrow> real" where
  "sigmoid x = 1 / (1 + exp (- x))"

text \<open>\<^verbatim>\<open>tf.clip_by_value(t, lo, hi)\<close> is \<open>minimum(maximum(t, lo), hi)\<close>.\<close>

definition clip_by_value :: "real \<Rightarrow> real \<Rightarrow> real \<Rightarrow> real" where
  "clip_by_value lo hi x = min (max x lo) hi"

definition map_tval :: "(real \<Rightarrow> real) \<Rightarrow> tval \<Rightarrow> tval" where
  "map_tval f t =
     (case t of
        V1 xs \<Rightarrow> V1 (map f xs)
      | V2 xs \<Rightarrow> V2 (map (map f) xs)
      | V4 xs \<Rightarrow> V4 (map (map (map (map f))) xs))"

text \<open>
  Convolution with stride 1. With "same" padding the image is surrounded by zeros, the
  smaller half of the \<open>k - 1\<close> padding rows (columns) first; the convolution itself is then
  the "valid" one.
\<close>

definition pad_image :: "nat \<Rightarrow> nat \<Rightarrow> nat \<Rightarrow> nat \<Rightarrow> image \<Rightarrow> image" where
  "pad_image kh kw wd ch img =
     (let top = (kh - 1) div 2; bottom = (kh - 1) - top;
          left = (kw - 1) div 2; right = (kw - 1) - left;
          zpx = replicate ch 0;
          zrow = replicate (left + wd + right) zpx
      in replicate top zrow
         @ map (\<lambda>r. replicate left zpx @ r @ replicate right zpx) img
         @ replicate bottom zrow)"

definition conv2d_at :: "real list list list list \<Rightarrow> nat \<Rightarrow> nat \<Rightarrow> nat \<Rightarrow> image \<Rightarrow> nat \<Rightarrow> nat \<Rightarrow> nat \<Rightarrow> real" where
  "conv2d_at F kh kw ci img y x co =
     (\<Sum>dy\<leftarrow>[0..<kh]. \<Sum>dx\<leftarrow>[0..<kw]. \<Sum>q\<leftarrow>[0..<ci].
        img ! (y + dy) ! (x + dx) ! q * F ! dy ! dx ! q ! co)"

definition conv2d_image ::
  "padding \<Rightarrow> real list list list list \<Rightarrow> nat \<Rightarrow> nat \<Rightarrow> nat \<Rightarrow> nat \<Rightarrow> nat \<Rightarrow> nat \<Rightarrow> nat \<Rightarrow> image \<Rightarrow> image" where
  "conv2d_image pad F kh kw ci co wd oh ow img =
     (let src = (case pad of SAME \<Rightarrow> pad_image kh kw wd ci img | VALID \<Rightarrow> img)
      in map (\<lambda>y. map (\<lambda>x. map (\<lambda>o'. conv2d_at F kh kw ci src y x o') [0..<co]) [0..<ow])
           [0..<oh])"

text \<open>
  Max-pooling with a 2x2 window and stride 2. With "same" padding the last window of an odd
  dimension reaches over the border and takes the maximum of the elements inside. A window
  is never empty.
\<close>

fun maximum :: "real list \<Rightarrow> real" where
  "maximum [] = 0"
| "maximum (x # xs) = fold max xs x"

definition max_pool_at :: "nat \<Rightarrow> nat \<Rightarrow> image \<Rightarrow> nat \<Rightarrow> nat \<Rightarrow> nat \<Rightarrow> real" where
  "max_pool_at ht wd img y x q =
     maximum (concat (map (\<lambda>i. map (\<lambda>j. img ! i ! j ! q) [2 * x..<min (2 * x + 2) wd])
                        [2 * y..<min (2 * y + 2) ht]))"

definition max_pool_image :: "nat \<Rightarrow> nat \<Rightarrow> nat \<Rightarrow> nat \<Rightarrow> nat \<Rightarrow> image \<Rightarrow> image" where
  "max_pool_image ht wd ch oh ow img =
     map (\<lambda>y. map (\<lambda>x. map (\<lambda>q. max_pool_at ht wd img y x q) [0..<ch]) [0..<ow]) [0..<oh]"

text \<open>Adding a vector of length \<open>m\<close> along the last dimension \<open>d\<close>, with broadcasting.\<close>

definition add_bias :: "nat \<Rightarrow> nat \<Rightarrow> nat \<Rightarrow> real list \<Rightarrow> real list \<Rightarrow> real list" where
  "add_bias d m d' bias xs =
     map (\<lambda>j. xs ! (if d = 1 then 0 else j) + bias ! (if m = 1 then 0 else j)) [0..<d']"

definition matmul_row :: "nat \<Rightarrow> nat \<Rightarrow> real list list \<Rightarrow> real list \<Rightarrow> real list" where
  "matmul_row a m W xs = map (\<lambda>j. \<Sum>k\<leftarrow>[0..<a]. xs ! k * W ! k ! j) [0..<m]"

text \<open>
  \<^verbatim>\<open>tf.reshape(t, [-1, m])\<close>: the elements in row-major order, cut into rows of \<open>m\<close>.
  The number of rows cannot be inferred when \<open>m = 0\<close> or when \<open>m\<close> does not divide the
  number of elements.
\<close>

definition elements :: "tval \<Rightarrow> real list" where
  "elements t =
     (case t of V1 xs \<Rightarrow> xs | V2 xs \<Rightarrow> concat xs | V4 xs \<Rightarrow> concat (map (\<lambda>i. concat (concat i)) xs))"

definition reshape_rows :: "nat \<Rightarrow> tval \<Rightarrow> error + tval" where
  "reshape_rows m t =
     (let es = elements t in
      if m = 0 \<or> length es mod m \<noteq> 0 then Inl InvalidArgumentError
      else Inr (V2 (map (\<lambda>i. take m (drop (i * m) es)) [0..<length es div m])))"

text \<open>
  The kernels. A value is checked against the static shape of the node it belongs to, and a
  variable's value against the shape of the variable.
\<close>

definition conv2d_op :: "padding \<Rightarrow> sshape \<Rightarrow> nat list \<Rightarrow> tval \<Rightarrow> tval \<Rightarrow> error + tval" where
  "conv2d_op pad s fs t f =
     (case (s, fs, t, f) of
        (S4 ht wd ch, [kh, kw, ci, co], V4 xs, V4 F) \<Rightarrow>
          if conforms t [length xs, ht, wd, ch] \<and> conforms f fs \<and> ch = ci then
            and_then (windowed_output_size pad ht kh 1) (\<lambda>oh.
            and_then (windowed_output_size pad wd kw 1) (\<lambda>ow.
            Inr (V4 (map (conv2d_image pad F kh kw ci co wd oh ow) xs))))
          else Inl InvalidArgumentError
      | _ \<Rightarrow> Inl InvalidArgumentError)"

definition add_op :: "sshape \<Rightarrow> nat list \<Rightarrow> tval \<Rightarrow> tval \<Rightarrow> error + tval" where
  "add_op s bs t bias =
     (case (bs, bias) of
        ([m], V1 ys) \<Rightarrow>
          if \<not> conforms bias bs then Inl InvalidArgumentError
          else (case (s, t) of
                  (S2 d, V2 xs) \<Rightarrow>
                    if conforms t [length xs, d] then
                      and_then (broadcast_dim d m) (\<lambda>d'.
                        Inr (V2 (map (add_bias d m d' ys) xs)))
                    else Inl InvalidArgumentError
                | (S4 ht wd ch, V4 xs) \<Rightarrow>
                    if conforms t [length xs, ht, wd, ch] then
                      and_then (broadcast_dim ch m) (\<lambda>d'.
                        Inr (V4 (map (map (map (add_bias ch m d' ys))) xs)))
                    else Inl InvalidArgumentError
                | _ \<Rightarrow> Inl InvalidArgumentError)
      | _ \<Rightarrow> Inl InvalidArgumentError)"

definition max_pool_op :: "padding \<Rightarrow> sshape \<Rightarrow> tval \<Rightarrow> error + tval" where
  "max_pool_op pad s t =
     (case (s, t) of
        (S4 ht wd ch, V4 xs) \<Rightarrow>
          if conforms t [length xs, ht, wd, ch] then
            and_then (windowed_output_size pad ht 2 2) (\<lambda>oh.
            and_then (windowed_output_size pad wd 2 2) (\<lambda>ow.
            Inr (V4 (map (max_pool_image ht wd ch oh ow) xs))))
          else Inl InvalidArgumentError
      | _ \<Rightarrow> Inl InvalidArgumentError)"

definition matmul_op :: "sshape \<Rightarrow> nat list \<Rightarrow> tval \<Rightarrow> tval \<Rightarrow> error + tval" where
  "matmul_op s ws t wv =
     (case (s, ws, t, wv) of
        (S2 d, [a, m], V2 xs, V2 W) \<Rightarrow>
          if conforms t [length xs, d] \<and> conforms wv ws \<and> d = a then
            Inr (V2 (map (matmul_row a m W) xs))
          else Inl InvalidArgumentError
      | _ \<Rightarrow> Inl InvalidArgumentError)"

text \<open>
  Modelled from the spec: \<open>eval P X g\<close> is the value of node \<open>g\<close> when the placeholder is
  fed the batch \<open>X\<close> and the variables hold the values \<open>P\<close>. A feed that does not have
  the placeholder's shape is rejected. The batch size of \<^verbatim>\<open>tf.zeros([self.batch_size, 1])\<close>
  is that of the feed.
\<close>

fun eval :: "store \<Rightarrow> image list \<Rightarrow> node \<Rightarrow> error + tval" where
  "eval P X (Placeholder ht wd ch) =
     (if conforms (V4 X) [length X, ht, wd, ch] then Inr (V4 X) else Inl ValueError)"
| "eval P X (Zeros m) = Inr (V2 (replicate (length X) (replicate m 0)))"
| "eval P X (Conv2d n v pad) =
     and_then (static_shape n) (\<lambda>s.
     and_then (eval P X n) (\<lambda>t. conv2d_op pad s (vshape v) t (P (vname v))))"
| "eval P X (Add n v) =
     and_then (static_shape n) (\<lambda>s.
     and_then (eval P X n) (\<lambda>t. add_op s (vshape v) t (P (vname v))))"
| "eval P X (Relu n) = and_then (eval P X n) (\<lambda>t. Inr (map_tval relu t))"
| "eval P X (MaxPool n pad) =
     and_then (static_shape n) (\<lambda>s.
     and_then (eval P X n) (\<lambda>t. max_pool_op pad s t))"
| "eval P X (Reshape n m) = and_then (eval P X n) (\<lambda>t. reshape_rows m t)"
| "eval P X (MatMul n v) =
     and_then (static_shape n) (\<lambda>s.
     and_then (eval P X n) (\<lambda>t. matmul_op s (vshape v) t (P (vname v))))"
| "eval P X (Sigmoid n) = and_then (eval P X n) (\<lambda>t. Inr (map_tval sigmoid t))"
| "eval P X (ClipByValue n lo hi) =
     and_then (eval P X n) (\<lambda>t. Inr (map_tval (clip_by_value lo hi) t))"

subsection \<open>The prediction entry point\<close>

text \<open>
  Modelled from the spec: the source file has no prediction function. Line 149 only stores
  the graph in \<^verbatim>\<open>self.preds\<close>, and the enclosing discriminator, which is not part of the
  source, evaluates it for a feed of \<^verbatim>\<open>self.input_frames\<close>. The spec gives the entry
  point as \<open>predict(model, input_batch)\<close>, which "delegates to ForwardPassEngine", whose
  \<open>predict(input_batch, parameters)\<close> is "a pure function of its two arguments": the value
  of the model's graph for that batch and those parameter values.
\<close>

definition predict :: "d_scale_model \<Rightarrow> image list \<Rightarrow> store \<Rightarrow> error + tval" where
  "predict m X P = eval P X (preds m)"

subsection \<open>Example configurations\<close>

text \<open>
  A store holding the lists of the spec's end-to-end scenario
  (\<open>conv_layer_fms = [3, 8, 16]\<close>, \<open>kernel_sizes = [3, 3]\<close>, \<open>fc_layer_sizes = [1]\<close>)
  and a kernel list of the wrong length.
\<close>

definition example_heap :: heap where
  "example_heap = (\<lambda>r. [])(0 := [3, 8, 16], 1 := [3, 3], 2 := [1], 3 := [3])"

subsection \<open>The spec's derived sizes and layer stacks\<close>

text \<open>
  \<open>DerivedFCSizes[0]\<close> in the spec's words: \<open>conv_out_size\<close> applied once per
  convolutional layer to the height and to the width, both halved, times the last channel
  count.
\<close>

definition derived_fc_head :: "padding \<Rightarrow> int \<Rightarrow> int \<Rightarrow> int list \<Rightarrow> int list \<Rightarrow> int" where
  "derived_fc_head pad ht wd fms ks =
     (foldl (\<lambda>d k. conv_out_size d pad k 1) ht ks div 2)
     * (foldl (\<lambda>d k. conv_out_size d pad k 1) wd ks div 2)
     * last fms"

text \<open>The variables that the setup loop allocates for convolution \<open>i\<close>.\<close>

definition conv_var :: "int list \<Rightarrow> int list \<Rightarrow> nat \<Rightarrow> variable" where
  "conv_var ks fms i =
     \<lparr>vname = ConvW i, vshape = [nat (ks ! i), nat (ks ! i), nat (fms ! i), nat (fms ! Suc i)]\<rparr>"

definition conv_bias_var :: "int list \<Rightarrow> nat \<Rightarrow> variable" where
  "conv_bias_var fms i = \<lparr>vname = ConvB i, vshape = [nat (fms ! Suc i)]\<rparr>"

text \<open>The operations of a graph, outermost first.\<close>

fun subnodes :: "node \<Rightarrow> node list" where
  "subnodes (Placeholder ht wd ch) = [Placeholder ht wd ch]"
| "subnodes (Zeros m) = [Zeros m]"
| "subnodes (Conv2d n v pad) = Conv2d n v pad # subnodes n"
| "subnodes (Add n v) = Add n v # subnodes n"
| "subnodes (Relu n) = Relu n # subnodes n"
| "subnodes (MaxPool n pad) = MaxPool n pad # subnodes n"
| "subnodes (Reshape n m) = Reshape n m # subnodes n"
| "subnodes (MatMul n v) = MatMul n v # subnodes n"
| "subnodes (Sigmoid n) = Sigmoid n # subnodes n"
| "subnodes (ClipByValue n lo hi) = ClipByValue n lo hi # subnodes n"

fun is_max_pool :: "node \<Rightarrow> bool" where
  "is_max_pool (MaxPool n pad) = True"
| "is_max_pool _ = False"

fun is_conv2d :: "node \<Rightarrow> bool" where
  "is_conv2d (Conv2d n v pad) = True"
| "is_conv2d _ = False"

fun is_reshape :: "node \<Rightarrow> bool" where
  "is_reshape (Reshape n m) = True"
| "is_reshape _ = False"

text \<open>
  The convolution stack in the spec's words: each layer convolves the running tensor, adds
  the bias and applies the rectified-linear activation.
\<close>

fun conv_stack :: "padding \<Rightarrow> node \<Rightarrow> (variable \<times> variable) list \<Rightarrow> node" where
  "conv_stack pad x [] = x"
| "conv_stack pad x ((cw, cb) # rest) = conv_stack pad (Relu (Add (Conv2d x cw pad) cb)) rest"

text \<open>
  The fully-connected stack in the spec's words: every layer is \<open>x @ W + b\<close>, followed
  by the rectified-linear activation, except the last, which is followed by the sigmoid.
\<close>

fun fc_stack :: "node \<Rightarrow> (variable \<times> variable) list \<Rightarrow> node" where
  "fc_stack x [] = x"
| "fc_stack x [(fw, fb)] = Sigmoid (Add (MatMul x fw) fb)"
| "fc_stack x ((fw, fb) # rest) = fc_stack (Relu (Add (MatMul x fw) fb)) rest"

text \<open>A run of hidden layers, all of them rectified.\<close>

fun fc_hidden :: "node \<Rightarrow> (variable \<times> variable) list \<Rightarrow> node" where
  "fc_hidden x [] = x"
| "fc_hidden x ((fw, fb) # rest) = fc_hidden (Relu (Add (MatMul x fw) fb)) rest"

text \<open>The variables that a graph reads.\<close>

fun variables :: "node \<Rightarrow> variable list" where
  "variables (Placeholder ht wd ch) = []"
| "variables (Zeros m) = []"
| "variables (Conv2d n v pad) = v # variables n"
| "variables (Add n v) = v # variables n"
| "variables (Relu n) = variables n"
| "variables (MaxPool n pad) = variables n"
| "variables (Reshape n m) = variables n"
| "variables (MatMul n v) = v # variables n"
| "variables (Sigmoid n) = variables n"
| "variables (ClipByValue n lo hi) = variables n"

text \<open>
  A small configuration: 5x4 frames with one channel, one 2x2 convolution with two feature
  maps, fully-connected sizes \<open>[3, 1]\<close>; a session for it and a batch of two frames.
\<close>

definition small_heap :: heap where
  "small_heap = (\<lambda>r. [])(0 := [1, 2], 1 := [2], 2 := [3, 1])"

definition small_model :: d_scale_model where
  "small_model = projr (fst (DScaleModel VALID small_heap 0 5 4 0 1 2))"

definition small_store :: store where
  "small_store = (\<lambda>v. V1 [])
     (ConvW 0 := V4 [[[[1, 0]], [[0, 1]]], [[[1, 1]], [[- 1, 2]]]],
      ConvB 0 := V1 [0, - 3],
      FcW 0 := V2 [[1, 0, 2], [0, 1, 0], [- 1, 0, 1], [2, 2, 0]],
      FcB 0 := V1 [0, 1, - 20],
      FcW 1 := V2 [[1], [- 2], [3]],
      FcB 1 := V1 [0])"

definition small_batch :: "image list" where
  "small_batch =
     [[[[1], [2], [3], [4]], [[5], [6], [7], [8]], [[9], [1], [2], [3]],
       [[4], [5], [6], [7]], [[8], [9], [1], [2]]],
      [[[0], [0], [0], [0]], [[0], [1], [0], [0]], [[0], [0], [0], [0]],
       [[0], [0], [2], [0]], [[0], [0], [0], [0]]]]"

text \<open>
  Well-formed runs: the session holds, for every variable of the graph, a value of the
  variable's shape; the feed has the placeholder's shape; and every reshape flattens each
  example of a rank-4 operand into one non-empty row, as the one that \<open>flatten\<close> creates.
\<close>

definition store_ok :: "store \<Rightarrow> node \<Rightarrow> bool" where
  "store_ok P g = (\<forall>v \<in> set (variables g). conforms (P (vname v)) (vshape v))"

fun feed_ok :: "image list \<Rightarrow> node \<Rightarrow> bool" where
  "feed_ok X (Placeholder ht wd ch) = conforms (V4 X) [length X, ht, wd, ch]"
| "feed_ok X (Zeros m) = True"
| "feed_ok X (Conv2d n v pad) = feed_ok X n"
| "feed_ok X (Add n v) = feed_ok X n"
| "feed_ok X (Relu n) = feed_ok X n"
| "feed_ok X (MaxPool n pad) = feed_ok X n"
| "feed_ok X (Reshape n m) = feed_ok X n"
| "feed_ok X (MatMul n v) = feed_ok X n"
| "feed_ok X (Sigmoid n) = feed_ok X n"
| "feed_ok X (ClipByValue n lo hi) = feed_ok X n"

fun reshape_ok :: "node \<Rightarrow> bool" where
  "reshape_ok (Placeholder ht wd ch) = True"
| "reshape_ok (Zeros m) = True"
| "reshape_ok (Conv2d n v pad) = reshape_ok n"
| "reshape_ok (Add n v) = reshape_ok n"
| "reshape_ok (Relu n) = reshape_ok n"
| "reshape_ok (MaxPool n pad) = reshape_ok n"
| "reshape_ok (Reshape n m) =
     (reshape_ok n \<and> 0 < m \<and>
      (case static_shape n of
         Inr (S4 ht wd ch) \<Rightarrow> m = ht * wd * ch
       | _ \<Rightarrow> False))"
| "reshape_ok (MatMul n v) = reshape_ok n"
| "reshape_ok (Sigmoid n) = reshape_ok n"
| "reshape_ok (ClipByValue n lo hi) = reshape_ok n"

text \<open>Example \<open>k\<close> of a batch, as a batch of one.\<close>

definition example :: "nat \<Rightarrow> tval \<Rightarrow> tval" where
  "example k t = (case t of V1 xs \<Rightarrow> V1 xs | V2 xs \<Rightarrow> V2 [xs ! k] | V4 xs \<Rightarrow> V4 [xs ! k])"

text \<open>The variables that the setup loop allocates for fully-connected layer \<open>i\<close>.\<close>

definition fc_var :: "int list \<Rightarrow> nat \<Rightarrow> variable" where
  "fc_var fcs i = \<lparr>vname = FcW i, vshape = [nat (fcs ! i), nat (fcs ! Suc i)]\<rparr>"

definition fc_bias_var :: "int list \<Rightarrow> nat \<Rightarrow> variable" where
  "fc_bias_var fcs i = \<lparr>vname = FcB i, vshape = [nat (fcs ! Suc i)]\<rparr>"

text \<open>
  The dimensions that \<^verbatim>\<open>define_graph\<close> derives from the configuration (lines 72-89).
  \<open>conv_dim pad d ks\<close> is the value of \<^verbatim>\<open>last_out_height\<close> (or \<^verbatim>\<open>last_out_width\<close>)
  after the setup loop has run over the kernel sizes \<open>ks\<close>, started at \<open>d\<close>. The derived
  dimensions are the heights and the widths after each convolutional layer, the halved height
  and width, and the flattened feature count.
\<close>

definition conv_dim :: "padding \<Rightarrow> int \<Rightarrow> int list \<Rightarrow> int" where
  "conv_dim pad d ks = foldl (\<lambda>d k. conv_out_size d pad k 1) d ks"


text \<open>
  The convolution part of the graph of a configuration, and the spec's \<open>DerivedFCSizes\<close>:
  the flattened feature count prepended to the caller's sizes.
\<close>

definition conv_graph :: "padding \<Rightarrow> int \<Rightarrow> int \<Rightarrow> int list \<Rightarrow> int list \<Rightarrow> node" where
  "conv_graph pad ht wd fms ks =
     conv_stack pad (Placeholder (nat ht) (nat wd) (nat (fms ! 0)))
       (zip (map (conv_var ks fms) [0..<length ks]) (map (conv_bias_var fms) [0..<length ks]))"

definition derived_fc_sizes :: "padding \<Rightarrow> int \<Rightarrow> int \<Rightarrow> int list \<Rightarrow> int list \<Rightarrow> int list \<Rightarrow> int list" where
  "derived_fc_sizes pad ht wd fms ks fcs = derived_fc_head pad ht wd fms ks # fcs"

definition fc_layers :: "int list \<Rightarrow> (variable \<times> variable) list" where
  "fc_layers dfs =
     zip (map (fc_var dfs) [0..<length dfs - 1]) (map (fc_bias_var dfs) [0..<length dfs - 1])"







section \<open>Properties\<close>

subsection \<open>Basic facts\<close>

lemma and_then_Inl [simp]: "and_then (Inl e) f = Inl e"
  by (simp add: and_then_def)

lemma and_then_Inr [simp]: "and_then (Inr x) f = f x"
  by (simp add: and_then_def)

lemma and_then_eq_Inr: "and_then m f = Inr y \<longleftrightarrow> (\<exists>x. m = Inr x \<and> f x = Inr y)"
  by (cases m) simp_all

lemma for_loop_append:
  "for_loop (xs @ ys) body s = and_then (for_loop xs body s) (for_loop ys body)"
  by (induction xs arbitrary: s) (simp_all split: sum.splits)

lemma for_loop_single: "for_loop [i] body = body i"
  by (rule ext) (simp split: sum.splits)

lemma for_loop_Suc:
  "for_loop [0..<Suc n] body s = and_then (for_loop [0..<n] body s) (body n)"
  by (simp add: for_loop_append for_loop_single)

lemma py_get_nat: "i < length xs \<Longrightarrow> py_get xs (int i) = Inr (xs ! i)"
  by (simp add: py_get_def)

lemma py_get_Suc: "Suc i < length xs \<Longrightarrow> py_get xs (int i + 1) = Inr (xs ! Suc i)"
  by (simp add: py_get_def nat_add_distrib)

lemma py_get_last: "xs \<noteq> [] \<Longrightarrow> py_get xs (- 1) = Inr (last xs)"
  by (cases xs rule: rev_cases) (simp_all add: py_get_def nat_add_distrib)

subsection \<open>The length check of the constructor\<close>

text \<open>
  C5: whenever \<open>len(kernel_sizes) \<noteq> len(conv_layer_fms) - 1\<close>, the constructor raises the
  assertion error; no model is produced and the store is left as it was.
\<close>

theorem length_mismatch_rejected:
  "int (length (h ks_r)) \<noteq> int (length (h fms_r)) - 1 \<Longrightarrow>
   DScaleModel pad h si ht wd fms_r ks_r fc_r = (Inl AssertionError, h)"
  by (simp add: DScaleModel_def)

theorem length_mismatch_rejected_witness:
  "int (length (example_heap 3)) \<noteq> int (length (example_heap 0)) - 1 \<and>
   DScaleModel VALID example_heap 0 64 64 0 3 2 = (Inl AssertionError, example_heap)"
  using length_mismatch_rejected [of example_heap 3 0 VALID 0 64 64 2]
  by (simp add: example_heap_def)

subsection \<open>The layer setup\<close>

lemma for_loop_Suc_Inr:
  "for_loop [0..<Suc n] body s = Inr s' \<longleftrightarrow>
     (\<exists>t. for_loop [0..<n] body s = Inr t \<and> body n t = Inr s')"
  by (simp add: for_loop_append for_loop_single and_then_eq_Inr)

lemma w_eq_Inr: "w shape = Inr s \<longleftrightarrow> (\<forall>d \<in> set shape. 0 < d) \<and> s = map nat shape"
  by (auto simp: w_def)

lemma b_eq_Inr: "b shape = Inr s \<longleftrightarrow> (\<forall>d \<in> set shape. 0 < d) \<and> s = map nat shape"
  by (auto simp: b_def)

lemma conv_setup_body_Inr:
  assumes "conv_setup_body pad ks fms i st = Inr st'" "i < length ks" "Suc i < length fms"
  shows "cs_ws st' = cs_ws st @ [conv_var ks fms i]"
    and "cs_bs st' = cs_bs st @ [conv_bias_var fms i]"
    and "last_out_height st' = conv_out_size (last_out_height st) pad (ks ! i) 1"
    and "last_out_width st' = conv_out_size (last_out_width st) pad (ks ! i) 1"
    and "0 < ks ! i" "0 < fms ! i" "0 < fms ! Suc i"
  using assms
  by (auto simp: conv_setup_body_def py_get_nat py_get_Suc and_then_eq_Inr w_eq_Inr b_eq_Inr
      conv_var_def conv_bias_var_def)

lemma conv_setup_loop:
  assumes "for_loop [0..<n] (conv_setup_body pad ks fms)
             \<lparr>cs_ws = [], cs_bs = [], last_out_height = ht, last_out_width = wd\<rparr> = Inr cs"
    and "n \<le> length ks" "n < length fms"
  shows "cs_ws cs = map (conv_var ks fms) [0..<n]
       \<and> cs_bs cs = map (conv_bias_var fms) [0..<n]
       \<and> last_out_height cs = foldl (\<lambda>d k. conv_out_size d pad k 1) ht (take n ks)
       \<and> last_out_width cs = foldl (\<lambda>d k. conv_out_size d pad k 1) wd (take n ks)
       \<and> (\<forall>i<n. 0 < ks ! i \<and> 0 < fms ! i \<and> 0 < fms ! Suc i)"
  using assms
proof (induction n arbitrary: cs)
  case 0
  then show ?case by auto
next
  case (Suc n)
  from Suc.prems(1) obtain st where
    st: "for_loop [0..<n] (conv_setup_body pad ks fms)
           \<lparr>cs_ws = [], cs_bs = [], last_out_height = ht, last_out_width = wd\<rparr> = Inr st"
    and body: "conv_setup_body pad ks fms n st = Inr cs"
    unfolding for_loop_Suc_Inr by blast
  from Suc.prems have n: "n < length ks" "Suc n < length fms" by simp_all
  note IH = Suc.IH [OF st] 
  note B = conv_setup_body_Inr [OF body n]
  from n IH B show ?case
    by (simp add: take_Suc_conv_app_nth less_Suc_eq)
qed

lemma tf_placeholder_Inr:
  "tf_placeholder ht wd ch = Inr g \<longleftrightarrow>
     0 \<le> ht \<and> 0 \<le> wd \<and> 0 \<le> ch \<and> g = Placeholder (nat ht) (nat wd) (nat ch)"
  by (auto simp: tf_placeholder_def)

lemma conv_setup_phase_Inr:
  assumes "conv_setup_phase pad ht wd fms ks = Inr (inp, cs, flat)"
    and "int (length ks) = int (length fms) - 1"
  shows "inp = Placeholder (nat ht) (nat wd) (nat (fms ! 0))"
    and "0 \<le> ht" "0 \<le> wd"
    and "cs_ws cs = map (conv_var ks fms) [0..<length ks]"
    and "cs_bs cs = map (conv_bias_var fms) [0..<length ks]"
    and "last_out_height cs = foldl (\<lambda>d k. conv_out_size d pad k 1) ht ks"
    and "last_out_width cs = foldl (\<lambda>d k. conv_out_size d pad k 1) wd ks"
    and "\<forall>i<length ks. 0 < ks ! i \<and> 0 < fms ! i \<and> 0 < fms ! Suc i"
    and "flat = derived_fc_head pad ht wd fms ks"
proof -
  from assms(2) have len: "length ks \<le> length ks" "length ks < length fms" "fms \<noteq> []"
    by auto
  from assms(1) obtain c0 where c0: "py_get fms 0 = Inr c0"
    and ph: "tf_placeholder ht wd c0 = Inr inp"
    and loop: "for_loop [0..<length ks] (conv_setup_body pad ks fms)
                 \<lparr>cs_ws = [], cs_bs = [], last_out_height = ht, last_out_width = wd\<rparr> = Inr cs"
    and flat: "flat = (last_out_height cs div 2) * (last_out_width cs div 2) * last fms"
    by (auto simp: conv_setup_phase_def and_then_eq_Inr py_range_def py_get_last [OF len(3)])
  from c0 len(3) have "c0 = fms ! 0"
    using py_get_nat [of 0 fms] by simp
  with ph show "inp = Placeholder (nat ht) (nat wd) (nat (fms ! 0))" "0 \<le> ht" "0 \<le> wd"
    by (simp_all add: tf_placeholder_Inr)
  note L = conv_setup_loop [OF loop len(1,2)]
  from L show "cs_ws cs = map (conv_var ks fms) [0..<length ks]"
    "cs_bs cs = map (conv_bias_var fms) [0..<length ks]"
    "last_out_height cs = foldl (\<lambda>d k. conv_out_size d pad k 1) ht ks"
    "last_out_width cs = foldl (\<lambda>d k. conv_out_size d pad k 1) wd ks"
    "\<forall>i<length ks. 0 < ks ! i \<and> 0 < fms ! i \<and> 0 < fms ! Suc i"
    by simp_all
  with flat show "flat = derived_fc_head pad ht wd fms ks"
    by (simp add: derived_fc_head_def)
qed

lemma DScaleModel_Inr:
  assumes "fst (DScaleModel pad h si ht wd fms_r ks_r fc_r) = Inr m"
  obtains inp cs flat fc g where
    "int (length (h ks_r)) = int (length (h fms_r)) - 1"
    "conv_setup_phase pad ht wd (h fms_r) (h ks_r) = Inr (inp, cs, flat)"
    "snd (DScaleModel pad h si ht wd fms_r ks_r fc_r) = h(fc_r := flat # h fc_r)"
    "for_loop (py_range (int (length (h fc_r)))) (fc_setup_body (flat # h fc_r)) ([], []) = Inr fc"
    "generate_predictions pad inp (cs_ws cs) (cs_bs cs) (fst fc) (snd fc) = Inr g"
    "m = \<lparr>scale_index = si, height = ht, width = wd,
          conv_layer_fms = fms_r, kernel_sizes = ks_r, fc_layer_sizes = fc_r,
          input_frames = inp,
          conv_ws = cs_ws cs, conv_bs = cs_bs cs, fc_ws = fst fc, fc_bs = snd fc,
          preds = g\<rparr>"
  using assms
  by (auto simp: DScaleModel_def define_graph_def list_insert0_def Let_def and_then_eq_Inr
      split: if_splits sum.splits prod.splits)

subsection \<open>The caller's list of fully-connected sizes\<close>

text \<open>
  C2, as amended: a construction that succeeds has inserted the flattened feature count at
  the head of the caller's \<open>fc_layer_sizes\<close> list object itself. The object's attribute is
  that same reference, and no other list object of the store is changed.
\<close>

theorem fc_layer_sizes_extended_in_place:
  assumes "fst (DScaleModel pad h si ht wd fms_r ks_r fc_r) = Inr m"
  shows "snd (DScaleModel pad h si ht wd fms_r ks_r fc_r)
           = h(fc_r := derived_fc_head pad ht wd (h fms_r) (h ks_r) # h fc_r)
         \<and> fc_layer_sizes m = fc_r"
proof -
  from assms obtain inp cs flat fc g where
    len: "int (length (h ks_r)) = int (length (h fms_r)) - 1"
    and ph: "conv_setup_phase pad ht wd (h fms_r) (h ks_r) = Inr (inp, cs, flat)"
    and hp: "snd (DScaleModel pad h si ht wd fms_r ks_r fc_r) = h(fc_r := flat # h fc_r)"
    and m: "m = \<lparr>scale_index = si, height = ht, width = wd,
          conv_layer_fms = fms_r, kernel_sizes = ks_r, fc_layer_sizes = fc_r,
          input_frames = inp,
          conv_ws = cs_ws cs, conv_bs = cs_bs cs, fc_ws = fst fc, fc_bs = snd fc,
          preds = g\<rparr>"
    by (rule DScaleModel_Inr)
  from conv_setup_phase_Inr(9) [OF ph len] hp m show ?thesis by simp
qed

theorem fc_layer_sizes_extended_in_place_witness:
  "(\<exists>m. fst (DScaleModel VALID example_heap 0 64 64 0 1 2) = Inr m)
   \<and> snd (DScaleModel VALID example_heap 0 64 64 0 1 2)
       = example_heap(2 := derived_fc_head VALID 64 64 (example_heap 0) (example_heap 1)
                            # example_heap 2)"
proof -
  have "\<not> isl (fst (DScaleModel VALID example_heap 0 64 64 0 1 2))"
    by code_simp
  then obtain m where m: "fst (DScaleModel VALID example_heap 0 64 64 0 1 2) = Inr m"
    by (cases "fst (DScaleModel VALID example_heap 0 64 64 0 1 2)") auto
  from fc_layer_sizes_extended_in_place [OF m] m show ?thesis
    by blast
qed

text \<open>
  C2 as stated fails: in the spec's end-to-end scenario the construction succeeds and the
  caller's list \<open>[1]\<close> has become \<open>[14400, 1]\<close>.
\<close>

theorem caller_list_mutated:
  "\<not> isl (fst (DScaleModel VALID example_heap 0 64 64 0 1 2))
   \<and> example_heap 2 = [1]
   \<and> snd (DScaleModel VALID example_heap 0 64 64 0 1 2) 2 = [14400, 1]"
  by code_simp

subsection \<open>The graph built by the loops\<close>

lemma py_get_int_Inr: "py_get xs (int i) = Inr v \<longleftrightarrow> i < length xs \<and> v = xs ! i"
  by (auto simp: py_get_def)

lemma create_op_Inr: "create_op g = Inr g' \<longleftrightarrow> g' = g \<and> (\<exists>s. static_shape g = Inr s)"
  by (auto simp: create_op_def and_then_eq_Inr)

lemma conv_stack_snoc:
  "conv_stack pad x (ls @ [(cw, cb)]) = Relu (Add (Conv2d (conv_stack pad x ls) cw pad) cb)"
  by (induction ls arbitrary: x) auto

lemma fc_hidden_snoc:
  "fc_hidden x (ls @ [(fw, fb)]) = Relu (Add (MatMul (fc_hidden x ls) fw) fb)"
  by (induction ls arbitrary: x) auto

lemma fc_stack_snoc:
  "fc_stack x (ls @ [(fw, fb)]) = Sigmoid (Add (MatMul (fc_hidden x ls) fw) fb)"
  by (induction x ls rule: fc_stack.induct) auto

lemma conv_body_Inr:
  "conv_body pad cws cbs i (p, l) = Inr (p', l') \<longleftrightarrow>
     i < length cws \<and> i < length cbs
     \<and> p' = Relu (Add (Conv2d l (cws ! i) pad) (cbs ! i)) \<and> l' = p'
     \<and> (\<exists>s. static_shape p' = Inr s)"
  by (auto simp: conv_body_def and_then_eq_Inr py_get_int_Inr create_op_Inr)

lemma take_Suc_zip:
  "n < length xs \<Longrightarrow> n < length ys \<Longrightarrow>
   take (Suc n) (zip xs ys) = take n (zip xs ys) @ [(xs ! n, ys ! n)]"
  by (simp add: take_Suc_conv_app_nth)

lemma conv_loop_graph:
  assumes "for_loop [0..<n] (conv_body pad cws cbs) (p, l) = Inr (p', l')"
  shows "n \<le> length cws \<and> n \<le> length cbs
       \<and> l' = conv_stack pad l (take n (zip cws cbs))
       \<and> p' = (if n = 0 then p else l')
       \<and> (0 < n \<longrightarrow> (\<exists>s. static_shape l' = Inr s))"
  using assms
proof (induction n arbitrary: p' l')
  case 0
  then show ?case by simp
next
  case (Suc n)
  from Suc.prems obtain p1 l1 where
    st: "for_loop [0..<n] (conv_body pad cws cbs) (p, l) = Inr (p1, l1)"
    and body: "conv_body pad cws cbs n (p1, l1) = Inr (p', l')"
    unfolding for_loop_Suc_Inr by auto
  from body have n: "n < length cws" "n < length cbs"
    and p': "p' = Relu (Add (Conv2d l1 (cws ! n) pad) (cbs ! n))" "l' = p'"
    and sh: "\<exists>s. static_shape p' = Inr s"
    unfolding conv_body_Inr by blast+
  from Suc.IH [OF st] have l1: "l1 = conv_stack pad l (take n (zip cws cbs))"
    by simp
  have "conv_stack pad l (take (Suc n) (zip cws cbs)) = l'"
    unfolding take_Suc_zip [OF n] conv_stack_snoc using p' l1 by simp
  with n p' sh show ?case by simp
qed

lemma convolutions_Inr:
  assumes "convolutions pad cws cbs p l = Inr (p', l')"
  shows "length cws \<le> length cbs"
    and "l' = conv_stack pad l (zip cws cbs)"
    and "p' = (if cws = [] then p else l')"
    and "cws \<noteq> [] \<Longrightarrow> \<exists>s. static_shape l' = Inr s"
proof -
  from assms have "for_loop [0..<length cws] (conv_body pad cws cbs) (p, l) = Inr (p', l')"
    by (simp add: convolutions_def py_range_def)
  note L = conv_loop_graph [OF this]
  from L show "length cws \<le> length cbs" by simp
  from L show "l' = conv_stack pad l (zip cws cbs)" by simp
  from L show "p' = (if cws = [] then p else l')" by simp
  from L show "cws \<noteq> [] \<Longrightarrow> \<exists>s. static_shape l' = Inr s" by blast
qed

lemma fc_body_Inr:
  "fc_body fws fbs i x = Inr g \<longleftrightarrow>
     i < length fws \<and> i < length fbs
     \<and> g = (if Suc i = length fws then Sigmoid (Add (MatMul x (fws ! i)) (fbs ! i))
            else Relu (Add (MatMul x (fws ! i)) (fbs ! i)))
     \<and> (\<exists>s. static_shape g = Inr s)"
  by (auto simp: fc_body_def and_then_eq_Inr py_get_int_Inr create_op_Inr)

lemma fc_loop_graph:
  assumes "for_loop [0..<n] (fc_body fws fbs) x = Inr g" "n \<le> length fws"
  shows "n \<le> length fbs
       \<and> g = (if n = length fws then fc_stack x (take n (zip fws fbs))
              else fc_hidden x (take n (zip fws fbs)))
       \<and> (0 < n \<longrightarrow> (\<exists>s. static_shape g = Inr s))"
  using assms
proof (induction n arbitrary: g)
  case 0
  then show ?case by auto
next
  case (Suc n)
  from Suc.prems obtain g1 where
    st: "for_loop [0..<n] (fc_body fws fbs) x = Inr g1"
    and body: "fc_body fws fbs n g1 = Inr g"
    unfolding for_loop_Suc_Inr by auto
  from Suc.prems have le: "n \<le> length fws" "n \<noteq> length fws" by simp_all
  from body have n: "n < length fws" "n < length fbs"
    and g: "g = (if Suc n = length fws then Sigmoid (Add (MatMul g1 (fws ! n)) (fbs ! n))
                 else Relu (Add (MatMul g1 (fws ! n)) (fbs ! n)))"
    and sh: "\<exists>s. static_shape g = Inr s"
    unfolding fc_body_Inr by blast+
  from Suc.IH [OF st le(1)] le(2) have g1: "g1 = fc_hidden x (take n (zip fws fbs))"
    by simp
  have "g = (if Suc n = length fws then fc_stack x (take (Suc n) (zip fws fbs))
             else fc_hidden x (take (Suc n) (zip fws fbs)))"
    unfolding take_Suc_zip [OF n] fc_stack_snoc fc_hidden_snoc using g g1 by simp
  with n sh show ?case by simp
qed

lemma fully_connected_refines_fc_stack_aux:
  assumes "fully_connected fws fbs x = Inr g"
  shows "g = fc_stack x (zip fws fbs)"
proof -
  from assms have loop: "for_loop [0..<length fws] (fc_body fws fbs) x = Inr g"
    by (simp add: fully_connected_def py_range_def)
  from fc_loop_graph [OF loop] show ?thesis by simp
qed

text \<open>
  C7: the fully-connected loop, with its test \<open>i == len(fc_ws) - 1\<close>, builds exactly the
  spec's stack over the layers in index order: matrix product plus bias in every layer, the
  rectified-linear activation after every layer but the last, the sigmoid after the last only.
\<close>

theorem fully_connected_refines_fc_stack:
  assumes "fully_connected fws fbs x = Inr g"
  shows "g = fc_stack x (zip fws fbs)"
proof -
  from assms have "for_loop [0..<length fws] (fc_body fws fbs) x = Inr g"
    by (simp add: fully_connected_def py_range_def)
  then have "length fws \<le> length fbs
       \<and> g = (if length fws = length fws then fc_stack x (take (length fws) (zip fws fbs))
              else fc_hidden x (take (length fws) (zip fws fbs)))
       \<and> (0 < length fws \<longrightarrow> (\<exists>s. static_shape g = Inr s))"
    by (rule fc_loop_graph) simp
  then show ?thesis by simp
qed

theorem fully_connected_refines_fc_stack_witness:
  "fully_connected
     [\<lparr>vname = FcW 0, vshape = [4, 3]\<rparr>, \<lparr>vname = FcW 1, vshape = [3, 1]\<rparr>]
     [\<lparr>vname = FcB 0, vshape = [3]\<rparr>, \<lparr>vname = FcB 1, vshape = [1]\<rparr>]
     (Zeros 4)
   = Inr (Sigmoid (Add (MatMul (Relu (Add (MatMul (Zeros 4)
            \<lparr>vname = FcW 0, vshape = [4, 3]\<rparr>) \<lparr>vname = FcB 0, vshape = [3]\<rparr>))
            \<lparr>vname = FcW 1, vshape = [3, 1]\<rparr>) \<lparr>vname = FcB 1, vshape = [1]\<rparr>))"
proof -
  have "\<not> isl (fully_connected
     [\<lparr>vname = FcW 0, vshape = [4, 3]\<rparr>, \<lparr>vname = FcW 1, vshape = [3, 1]\<rparr>]
     [\<lparr>vname = FcB 0, vshape = [3]\<rparr>, \<lparr>vname = FcB 1, vshape = [1]\<rparr>]
     (Zeros 4))"
    by code_simp
  then obtain g where g: "fully_connected
     [\<lparr>vname = FcW 0, vshape = [4, 3]\<rparr>, \<lparr>vname = FcW 1, vshape = [3, 1]\<rparr>]
     [\<lparr>vname = FcB 0, vshape = [3]\<rparr>, \<lparr>vname = FcB 1, vshape = [1]\<rparr>]
     (Zeros 4) = Inr g"
    by (cases "fully_connected
     [\<lparr>vname = FcW 0, vshape = [4, 3]\<rparr>, \<lparr>vname = FcW 1, vshape = [3, 1]\<rparr>]
     [\<lparr>vname = FcB 0, vshape = [3]\<rparr>, \<lparr>vname = FcB 1, vshape = [1]\<rparr>]
     (Zeros 4)") auto
  from fully_connected_refines_fc_stack [OF g] g show ?thesis
    by simp
qed

subsection \<open>The small example\<close>

lemma small_model_built: "fst (DScaleModel VALID small_heap 0 5 4 0 1 2) = Inr small_model"
  unfolding small_model_def by code_simp

subsection \<open>The shape of the whole graph\<close>

lemma flatten_Inr:
  "flatten n = Inr g \<longleftrightarrow>
     (\<exists>ht wd ch. static_shape n = Inr (S4 ht wd ch) \<and> g = Reshape n (ht * wd * ch))"
proof (cases "static_shape n")
  case (Inl e)
  then show ?thesis by (simp add: flatten_def)
next
  case (Inr s)
  then show ?thesis
    by (cases s)
      (auto simp: flatten_def as_list_def py_get_def known_dim_def create_op_def)
qed

lemma pooling_Inr:
  "pooling pad n = Inr g \<longleftrightarrow> g = MaxPool n pad \<and> (\<exists>s. static_shape (MaxPool n pad) = Inr s)"
  by (auto simp: pooling_def create_op_Inr)

lemma pooling_Zeros: "pooling pad (Zeros m) = Inl ValueError"
  by (simp add: pooling_def create_op_def)

lemma clip_Inr:
  "clip n = Inr g \<longleftrightarrow> g = ClipByValue n 0.1 0.9 \<and> (\<exists>s. static_shape n = Inr s)"
  by (auto simp: clip_def create_op_Inr)

lemma generate_predictions_Inr:
  assumes "generate_predictions pad inp cws cbs fws fbs = Inr g"
  shows "cws \<noteq> []"
    and "length cws \<le> length cbs"
    and "convolutions pad cws cbs (Zeros 1) inp
           = Inr (conv_stack pad inp (zip cws cbs), conv_stack pad inp (zip cws cbs))"
    and "\<exists>ht wd ch.
           static_shape (MaxPool (conv_stack pad inp (zip cws cbs)) pad) = Inr (S4 ht wd ch)
           \<and> g = ClipByValue
                   (fc_stack (Reshape (MaxPool (conv_stack pad inp (zip cws cbs)) pad)
                                (ht * wd * ch)) (zip fws fbs)) 0.1 0.9"
    and "\<exists>s. static_shape g = Inr s"
proof -
  from assms obtain p l pooled fl fc where
    conv: "convolutions pad cws cbs (Zeros 1) inp = Inr (p, l)"
    and pool: "pooling pad p = Inr pooled"
    and flat: "flatten pooled = Inr fl"
    and fc: "fully_connected fws fbs fl = Inr fc"
    and cl: "clip fc = Inr g"
    by (auto simp: generate_predictions_def and_then_eq_Inr)
  note C = convolutions_Inr [OF conv]
  show ne: "cws \<noteq> []"
  proof
    assume "cws = []"
    with C(3) have "p = Zeros 1" by simp
    with pool show False by (simp add: pooling_Zeros)
  qed
  from C(1) show "length cws \<le> length cbs" .
  from ne C(2,3) have p: "p = conv_stack pad inp (zip cws cbs)" "l = p"
    by simp_all
  with conv show "convolutions pad cws cbs (Zeros 1) inp
           = Inr (conv_stack pad inp (zip cws cbs), conv_stack pad inp (zip cws cbs))"
    by simp
  from pool have pooled: "pooled = MaxPool p pad"
    by (simp add: pooling_Inr)
  from flat obtain ht wd ch where sh: "static_shape pooled = Inr (S4 ht wd ch)"
    and fl: "fl = Reshape pooled (ht * wd * ch)"
    unfolding flatten_Inr by blast
  from fc have "fc = fc_stack fl (zip fws fbs)"
    by (rule fully_connected_refines_fc_stack_aux)
  with cl have "g = ClipByValue (fc_stack fl (zip fws fbs)) 0.1 0.9"
    by (simp add: clip_Inr)
  with sh fl pooled p
  show "\<exists>ht wd ch.
           static_shape (MaxPool (conv_stack pad inp (zip cws cbs)) pad) = Inr (S4 ht wd ch)
           \<and> g = ClipByValue
                   (fc_stack (Reshape (MaxPool (conv_stack pad inp (zip cws cbs)) pad)
                                (ht * wd * ch)) (zip fws fbs)) 0.1 0.9"
    by blast
  from cl show "\<exists>s. static_shape g = Inr s"
    by (auto simp: clip_Inr)
qed

subsection \<open>Where the pooling sits\<close>

lemma conv_stack_pools:
  "filter is_max_pool (subnodes (conv_stack pad x ls)) = filter is_max_pool (subnodes x)"
  by (induction ls arbitrary: x) auto

lemma conv_stack_reshapes:
  "filter is_reshape (subnodes (conv_stack pad x ls)) = filter is_reshape (subnodes x)"
  by (induction ls arbitrary: x) auto

lemma conv_stack_convs:
  "length (filter is_conv2d (subnodes (conv_stack pad x ls)))
     = length ls + length (filter is_conv2d (subnodes x))"
  by (induction ls arbitrary: x) auto

lemma fc_stack_pools:
  "filter is_max_pool (subnodes (fc_stack x ls)) = filter is_max_pool (subnodes x)"
  by (induction x ls rule: fc_stack.induct) auto

lemma fc_stack_convs:
  "filter is_conv2d (subnodes (fc_stack x ls)) = filter is_conv2d (subnodes x)"
  by (induction x ls rule: fc_stack.induct) auto

lemma fc_stack_reshapes:
  "filter is_reshape (subnodes (fc_stack x ls)) = filter is_reshape (subnodes x)"
  by (induction x ls rule: fc_stack.induct) auto

text \<open>
  C6: in the graph of every forward pass there is exactly one max-pooling operation (2x2
  window, stride 2, the padding policy of the convolutions). Its operand is the output of the
  last convolutional layer, all convolutions lie inside that operand and no pooling does, and
  the one reshape of the graph flattens the pooling's result.
\<close>

theorem max_pool_once_after_convolutions:
  assumes "generate_predictions pad (Placeholder ht wd ch) cws cbs fws fbs = Inr g"
  shows "let c = conv_stack pad (Placeholder ht wd ch) (zip cws cbs) in
           cws \<noteq> []
         \<and> convolutions pad cws cbs (Zeros 1) (Placeholder ht wd ch) = Inr (c, c)
         \<and> filter is_max_pool (subnodes g) = [MaxPool c pad]
         \<and> filter is_max_pool (subnodes c) = []
         \<and> filter is_conv2d (subnodes g) = filter is_conv2d (subnodes c)
         \<and> length (filter is_conv2d (subnodes c)) = length cws
         \<and> (\<exists>m. filter is_reshape (subnodes g) = [Reshape (MaxPool c pad) m])"
proof -
  define c where "c = conv_stack pad (Placeholder ht wd ch) (zip cws cbs)"
  note G = generate_predictions_Inr [OF assms, folded c_def]
  from G(4) obtain m where
    g: "g = ClipByValue (fc_stack (Reshape (MaxPool c pad) m) (zip fws fbs)) 0.1 0.9"
    by blast
  have pools: "filter is_max_pool (subnodes c) = []"
    by (simp add: c_def conv_stack_pools)
  have resh: "filter is_reshape (subnodes c) = []"
    by (simp add: c_def conv_stack_reshapes)
  from G(2) have convs: "length (filter is_conv2d (subnodes c)) = length cws"
    by (simp add: c_def conv_stack_convs)
  from g pools have 1: "filter is_max_pool (subnodes g) = [MaxPool c pad]"
    by (simp add: fc_stack_pools)
  from g have 2: "filter is_conv2d (subnodes g) = filter is_conv2d (subnodes c)"
    by (simp add: fc_stack_convs)
  from g resh have 3: "filter is_reshape (subnodes g) = [Reshape (MaxPool c pad) m]"
    by (simp add: fc_stack_reshapes)
  from G(1,3) 1 pools 2 convs 3 show ?thesis
    unfolding Let_def c_def [symmetric] by blast
qed

theorem max_pool_once_after_convolutions_witness:
  "filter is_max_pool (subnodes (preds small_model))
     = [MaxPool (Relu (Add (Conv2d (Placeholder 5 4 1)
                              \<lparr>vname = ConvW 0, vshape = [2, 2, 1, 2]\<rparr> VALID)
                         \<lparr>vname = ConvB 0, vshape = [2]\<rparr>)) VALID]"
proof -
  have "generate_predictions VALID (Placeholder 5 4 1)
          [\<lparr>vname = ConvW 0, vshape = [2, 2, 1, 2]\<rparr>] [\<lparr>vname = ConvB 0, vshape = [2]\<rparr>]
          [\<lparr>vname = FcW 0, vshape = [4, 3]\<rparr>, \<lparr>vname = FcW 1, vshape = [3, 1]\<rparr>]
          [\<lparr>vname = FcB 0, vshape = [3]\<rparr>, \<lparr>vname = FcB 1, vshape = [1]\<rparr>]
        = Inr (preds small_model)"
    unfolding small_model_def by code_simp
  from max_pool_once_after_convolutions [OF this] show ?thesis
    by (simp add: Let_def)
qed

subsection \<open>A configuration without convolutions\<close>



subsection \<open>Values and shapes\<close>

lemma conforms_V1: "conforms t [a] \<longleftrightarrow> (\<exists>xs. t = V1 xs \<and> length xs = a)"
  by (cases t) auto

lemma conforms_V2:
  "conforms t [a, m] \<longleftrightarrow> (\<exists>xs. t = V2 xs \<and> length xs = a \<and> (\<forall>r \<in> set xs. length r = m))"
  by (cases t) auto

lemma conforms_V4:
  "conforms t [a, ht, wd, ch] \<longleftrightarrow>
     (\<exists>xs. t = V4 xs \<and> length xs = a \<and>
        (\<forall>img \<in> set xs. length img = ht \<and>
           (\<forall>r \<in> set img. length r = wd \<and> (\<forall>px \<in> set r. length px = ch))))"
  by (cases t) auto

lemma conforms_map_tval: "conforms (map_tval f t) shape = conforms t shape"
  by (induction t shape rule: conforms.induct) (auto simp: map_tval_def)

lemma conforms_example_V2:
  "conforms (V2 xs) [length xs, m] \<Longrightarrow> k < length xs \<Longrightarrow> conforms (V2 [xs ! k]) [1, m]"
  using nth_mem [of k xs] by auto

lemma conforms_example_V4:
  "conforms (V4 xs) [length xs, ht, wd, ch] \<Longrightarrow> k < length xs \<Longrightarrow>
   conforms (V4 [xs ! k]) [1, ht, wd, ch]"
  using nth_mem [of k xs] by fastforce

lemma conv2d_image_conforms:
  "conforms (V4 (map (conv2d_image pad F kh kw ci co wd oh ow) xs)) [length xs, oh, ow, co]"
  by (auto simp: conv2d_image_def Let_def)

lemma max_pool_image_conforms:
  "conforms (V4 (map (max_pool_image ht wd ch oh ow) xs)) [length xs, oh, ow, ch]"
  by (auto simp: max_pool_image_def)

lemma matmul_row_conforms: "conforms (V2 (map (matmul_row a m W) xs)) [length xs, m]"
  by (auto simp: matmul_row_def)

lemma add_bias_length: "length (add_bias d m d' ys r) = d'"
  by (simp add: add_bias_def)

subsection \<open>The kernels on conforming operands\<close>

lemma conv2d_op_conforming:
  assumes "conforms (V4 xs) [length xs, ht, wd, ch]"
    and "conforms f [kh, kw, ch, co]"
    and "windowed_output_size pad ht kh 1 = Inr oh"
    and "windowed_output_size pad wd kw 1 = Inr ow"
  shows "\<exists>F. f = V4 F \<and> conv2d_op pad (S4 ht wd ch) [kh, kw, ch, co] (V4 xs) f
           = Inr (V4 (map (conv2d_image pad F kh kw ch co wd oh ow) xs))"
proof -
  from assms(2) obtain F where F: "f = V4 F"
    unfolding conforms_V4 by blast
  with assms show ?thesis
    by (simp add: conv2d_op_def)
qed

lemma max_pool_op_conforming:
  assumes "conforms (V4 xs) [length xs, ht, wd, ch]"
    and "windowed_output_size pad ht 2 2 = Inr oh"
    and "windowed_output_size pad wd 2 2 = Inr ow"
  shows "max_pool_op pad (S4 ht wd ch) (V4 xs)
           = Inr (V4 (map (max_pool_image ht wd ch oh ow) xs))"
  using assms by (simp add: max_pool_op_def)

lemma matmul_op_conforming:
  assumes "conforms (V2 xs) [length xs, a]" and "conforms f [a, m]"
  shows "\<exists>W. f = V2 W \<and> matmul_op (S2 a) [a, m] (V2 xs) f
           = Inr (V2 (map (matmul_row a m W) xs))"
proof -
  from assms(2) obtain W where "f = V2 W"
    unfolding conforms_V2 by blast
  with assms show ?thesis
    by (simp add: matmul_op_def)
qed

lemma add_op_conforming_V2:
  assumes "conforms (V2 xs) [length xs, d]" and "conforms f [m]"
    and "broadcast_dim d m = Inr d'"
  shows "\<exists>ys. f = V1 ys \<and> add_op (S2 d) [m] (V2 xs) f
           = Inr (V2 (map (add_bias d m d' ys) xs))"
proof -
  from assms(2) obtain ys where "f = V1 ys"
    unfolding conforms_V1 by blast
  with assms show ?thesis
    by (simp add: add_op_def)
qed

lemma add_op_conforming_V4:
  assumes "conforms (V4 xs) [length xs, ht, wd, ch]" and "conforms f [m]"
    and "broadcast_dim ch m = Inr d'"
  shows "\<exists>ys. f = V1 ys \<and> add_op (S4 ht wd ch) [m] (V4 xs) f
           = Inr (V4 (map (map (map (add_bias ch m d' ys))) xs))"
proof -
  from assms(2) obtain ys where "f = V1 ys"
    unfolding conforms_V1 by blast
  with assms show ?thesis
    by (simp add: add_op_def)
qed

lemma add_bias_conforms_V4:
  "conforms (V4 xs) [length xs, ht, wd, ch] \<Longrightarrow>
   conforms (V4 (map (map (map (add_bias ch m d' ys))) xs)) [length xs, ht, wd, d']"
  by (auto simp: add_bias_length)

lemma add_bias_conforms_V2:
  "conforms (V2 (map (add_bias d m d' ys) xs)) [length xs, d']"
  by (auto simp: add_bias_length)

text \<open>Rows of equal length are recovered from their concatenation.\<close>

lemma length_concat_rows:
  "\<forall>r \<in> set rs. length r = m \<Longrightarrow> length (concat rs) = length rs * m"
  by (induction rs) auto

lemma rows_of_concat:
  "\<forall>r \<in> set rs. length r = m \<Longrightarrow>
   map (\<lambda>i. take m (drop (i * m) (concat rs))) [0..<length rs] = rs"
proof (induction rs)
  case Nil
  then show ?case by simp
next
  case (Cons r rs)
  have "map (\<lambda>i. take m (drop (i * m) (concat (r # rs)))) [0..<length (r # rs)]
      = take m (concat (r # rs))
        # map (\<lambda>i. take m (drop (Suc i * m) (concat (r # rs)))) [0..<length rs]"
    by (simp add: upt_rec [of 0] map_Suc_upt [symmetric] del: upt_Suc)
  also from Cons.prems have "take m (concat (r # rs)) = r"
    by simp
  also from Cons.prems
  have "map (\<lambda>i. take m (drop (Suc i * m) (concat (r # rs)))) [0..<length rs]
      = map (\<lambda>i. take m (drop (i * m) (concat rs))) [0..<length rs]"
    by simp
  also from Cons have "\<dots> = rs"
    by simp
  finally show ?case .
qed

lemma image_elements_length:
  assumes "length img = ht"
    and "\<forall>r \<in> set img. length r = wd \<and> (\<forall>px \<in> set r. length px = ch)"
  shows "length (concat (concat img)) = ht * wd * ch"
proof -
  from assms(2) have "length (concat img) = length img * wd"
    by (intro length_concat_rows) simp
  with assms(1) have "length (concat img) = ht * wd"
    by simp
  moreover from assms have "\<forall>px \<in> set (concat img). length px = ch"
    by auto
  ultimately show ?thesis
    using length_concat_rows [of "concat img" ch] by simp
qed

lemma reshape_rows_conforming:
  assumes "conforms (V4 xs) [length xs, ht, wd, ch]" and "0 < ht * wd * ch"
  shows "reshape_rows (ht * wd * ch) (V4 xs) = Inr (V2 (map (\<lambda>i. concat (concat i)) xs))"
proof -
  let ?m = "ht * wd * ch"
  let ?rs = "map (\<lambda>i. concat (concat i)) xs"
  from assms(1) have rows: "\<forall>r \<in> set ?rs. length r = ?m"
    by (auto simp: image_elements_length)
  then have len: "length (concat ?rs) = length xs * ?m"
    using length_concat_rows [of ?rs ?m] by simp
  from rows have "map (\<lambda>i. take ?m (drop (i * ?m) (concat ?rs))) [0..<length ?rs] = ?rs"
    by (rule rows_of_concat)
  with len assms(2) show ?thesis
    by (simp add: reshape_rows_def elements_def Let_def)
qed

subsection \<open>Static shapes, inverted\<close>

lemma case_list4_Inr:
  "(case xs of [kh, kw, ci, co] \<Rightarrow> f kh kw ci co | _ \<Rightarrow> Inl e) = Inr y \<longleftrightarrow>
     (\<exists>kh kw ci co. xs = [kh, kw, ci, co] \<and> f kh kw ci co = Inr y)"
  by (auto split: list.splits)

lemma case_list2_Inr:
  "(case xs of [a, m] \<Rightarrow> f a m | _ \<Rightarrow> Inl e) = Inr y \<longleftrightarrow>
     (\<exists>a m. xs = [a, m] \<and> f a m = Inr y)"
  by (auto split: list.splits)

lemma case_list1_Inr:
  "(case xs of [m] \<Rightarrow> f m | _ \<Rightarrow> Inl e) = Inr y \<longleftrightarrow> (\<exists>m. xs = [m] \<and> f m = Inr y)"
  by (auto split: list.splits)

lemma static_shape_Conv2d:
  "static_shape (Conv2d n v pad) = Inr s \<longleftrightarrow>
     (\<exists>ht wd ch kh kw co oh ow.
        static_shape n = Inr (S4 ht wd ch) \<and> vshape v = [kh, kw, ch, co]
        \<and> windowed_output_size pad ht kh 1 = Inr oh
        \<and> windowed_output_size pad wd kw 1 = Inr ow \<and> s = S4 oh ow co)"
proof (cases "static_shape n")
  case (Inl e)
  then show ?thesis by simp
next
  case (Inr s')
  then show ?thesis
    by (cases s') (auto simp: case_list4_Inr and_then_eq_Inr)
qed

lemma static_shape_MaxPool:
  "static_shape (MaxPool n pad) = Inr s \<longleftrightarrow>
     (\<exists>ht wd ch oh ow.
        static_shape n = Inr (S4 ht wd ch)
        \<and> windowed_output_size pad ht 2 2 = Inr oh
        \<and> windowed_output_size pad wd 2 2 = Inr ow \<and> s = S4 oh ow ch)"
proof (cases "static_shape n")
  case (Inl e)
  then show ?thesis by simp
next
  case (Inr s')
  then show ?thesis
    by (cases s') (auto simp: and_then_eq_Inr)
qed

lemma static_shape_MatMul:
  "static_shape (MatMul n v) = Inr s \<longleftrightarrow>
     (\<exists>a m. static_shape n = Inr (S2 a) \<and> vshape v = [a, m] \<and> s = S2 m)"
proof (cases "static_shape n")
  case (Inl e)
  then show ?thesis by simp
next
  case (Inr s')
  then show ?thesis
    by (cases s') (auto simp: case_list2_Inr)
qed

lemma static_shape_Add:
  "static_shape (Add n v) = Inr s \<longleftrightarrow>
     (\<exists>m. vshape v = [m] \<and>
        ((\<exists>d d'. static_shape n = Inr (S2 d) \<and> broadcast_dim d m = Inr d' \<and> s = S2 d')
         \<or> (\<exists>ht wd ch d'. static_shape n = Inr (S4 ht wd ch)
               \<and> broadcast_dim ch m = Inr d' \<and> s = S4 ht wd d')))"
proof (cases "static_shape n")
  case (Inl e)
  then show ?thesis by simp
next
  case (Inr s')
  then show ?thesis
    by (cases s') (auto simp: case_list1_Inr and_then_eq_Inr)
qed


lemma reshape_ok_Reshape:
  "reshape_ok (Reshape n m) \<longleftrightarrow>
     reshape_ok n \<and> 0 < m \<and> (\<exists>ht wd ch. static_shape n = Inr (S4 ht wd ch) \<and> m = ht * wd * ch)"
proof (cases "static_shape n")
  case (Inl e)
  then show ?thesis by simp
next
  case (Inr s')
  then show ?thesis by (cases s') auto
qed

lemma store_ok_simps [simp]:
  "store_ok P (Placeholder ht wd ch)"
  "store_ok P (Zeros m)"
  "store_ok P (Conv2d n v pad) \<longleftrightarrow> conforms (P (vname v)) (vshape v) \<and> store_ok P n"
  "store_ok P (Add n v) \<longleftrightarrow> conforms (P (vname v)) (vshape v) \<and> store_ok P n"
  "store_ok P (Relu n) \<longleftrightarrow> store_ok P n"
  "store_ok P (MaxPool n pad) \<longleftrightarrow> store_ok P n"
  "store_ok P (Reshape n m) \<longleftrightarrow> store_ok P n"
  "store_ok P (MatMul n v) \<longleftrightarrow> conforms (P (vname v)) (vshape v) \<and> store_ok P n"
  "store_ok P (Sigmoid n) \<longleftrightarrow> store_ok P n"
  "store_ok P (ClipByValue n lo hi) \<longleftrightarrow> store_ok P n"
  by (simp_all add: store_ok_def)

subsection \<open>A well-shaped graph evaluates, to a value of its static shape\<close>

lemma eval_sound:
  assumes "static_shape g = Inr s" "reshape_ok g" "store_ok P g" "feed_ok X g"
  shows "\<exists>t. eval P X g = Inr t \<and> conforms t (dyn_shape (length X) s)"
  using assms
proof (induction g arbitrary: s)
  case (Placeholder ht wd ch)
  then show ?case by (auto simp: dyn_shape_def)
next
  case (Zeros m)
  then show ?case by (auto simp: dyn_shape_def)
next
  case (Conv2d n v pad)
  from Conv2d.prems(1) obtain ht wd ch kh kw co oh ow where
    n: "static_shape n = Inr (S4 ht wd ch)" and v: "vshape v = [kh, kw, ch, co]"
    and oh: "windowed_output_size pad ht kh 1 = Inr oh"
    and ow: "windowed_output_size pad wd kw 1 = Inr ow" and s: "s = S4 oh ow co"
    unfolding static_shape_Conv2d by blast
  from Conv2d.IH [OF n] Conv2d.prems obtain xs where
    t: "eval P X n = Inr (V4 xs)" and len: "length xs = length X"
    and c: "conforms (V4 xs) [length xs, ht, wd, ch]"
    by (auto simp: dyn_shape_def conforms_V4)
  from Conv2d.prems(3) v have "conforms (P (vname v)) [kh, kw, ch, co]"
    by simp
  from conv2d_op_conforming [OF c this oh ow] obtain F where
    "conv2d_op pad (S4 ht wd ch) [kh, kw, ch, co] (V4 xs) (P (vname v))
       = Inr (V4 (map (conv2d_image pad F kh kw ch co wd oh ow) xs))"
    by blast
  with n v t have "eval P X (Conv2d n v pad)
       = Inr (V4 (map (conv2d_image pad F kh kw ch co wd oh ow) xs))"
    by simp
  with len s show ?case
    using conv2d_image_conforms [of pad F kh kw ch co wd oh ow xs]
    by (simp add: dyn_shape_def)
next
  case (Add n v)
  from Add.prems(1) obtain m where v: "vshape v = [m]"
    and alt: "(\<exists>d d'. static_shape n = Inr (S2 d) \<and> broadcast_dim d m = Inr d' \<and> s = S2 d')
         \<or> (\<exists>ht wd ch d'. static_shape n = Inr (S4 ht wd ch)
               \<and> broadcast_dim ch m = Inr d' \<and> s = S4 ht wd d')"
    unfolding static_shape_Add by blast
  from Add.prems(3) v have bias: "conforms (P (vname v)) [m]"
    by simp
  from alt show ?case
  proof (elim disjE exE conjE)
    fix d d'
    assume n: "static_shape n = Inr (S2 d)" and bd: "broadcast_dim d m = Inr d'"
      and s: "s = S2 d'"
    from Add.IH [OF n] Add.prems obtain xs where
      t: "eval P X n = Inr (V2 xs)" and len: "length xs = length X"
      and c: "conforms (V2 xs) [length xs, d]"
      by (auto simp: dyn_shape_def conforms_V2)
    from add_op_conforming_V2 [OF c bias bd] obtain ys where
      "add_op (S2 d) [m] (V2 xs) (P (vname v)) = Inr (V2 (map (add_bias d m d' ys) xs))"
      by blast
    with n v t have "eval P X (Add n v) = Inr (V2 (map (add_bias d m d' ys) xs))"
      by simp
    with len s show ?thesis
      using add_bias_conforms_V2 [of d m d' ys xs] by (simp add: dyn_shape_def)
  next
    fix ht wd ch d'
    assume n: "static_shape n = Inr (S4 ht wd ch)" and bd: "broadcast_dim ch m = Inr d'"
      and s: "s = S4 ht wd d'"
    from Add.IH [OF n] Add.prems obtain xs where
      t: "eval P X n = Inr (V4 xs)" and len: "length xs = length X"
      and c: "conforms (V4 xs) [length xs, ht, wd, ch]"
      by (auto simp: dyn_shape_def conforms_V4)
    from add_op_conforming_V4 [OF c bias bd] obtain ys where
      "add_op (S4 ht wd ch) [m] (V4 xs) (P (vname v))
         = Inr (V4 (map (map (map (add_bias ch m d' ys))) xs))"
      by blast
    with n v t have "eval P X (Add n v) = Inr (V4 (map (map (map (add_bias ch m d' ys))) xs))"
      by simp
    with len s show ?thesis
      using add_bias_conforms_V4 [OF c, of m d' ys] by (simp add: dyn_shape_def)
  qed
next
  case (Relu n)
  from Relu.IH [of s] Relu.prems show ?case
    by (auto simp: conforms_map_tval)
next
  case (MaxPool n pad)
  from MaxPool.prems(1) obtain ht wd ch oh ow where
    n: "static_shape n = Inr (S4 ht wd ch)"
    and oh: "windowed_output_size pad ht 2 2 = Inr oh"
    and ow: "windowed_output_size pad wd 2 2 = Inr ow" and s: "s = S4 oh ow ch"
    unfolding static_shape_MaxPool by blast
  from MaxPool.IH [OF n] MaxPool.prems obtain xs where
    t: "eval P X n = Inr (V4 xs)" and len: "length xs = length X"
    and c: "conforms (V4 xs) [length xs, ht, wd, ch]"
    by (auto simp: dyn_shape_def conforms_V4)
  from n t max_pool_op_conforming [OF c oh ow]
  have "eval P X (MaxPool n pad) = Inr (V4 (map (max_pool_image ht wd ch oh ow) xs))"
    by simp
  with len s show ?case
    using max_pool_image_conforms [of ht wd ch oh ow xs] by (simp add: dyn_shape_def)
next
  case (Reshape n m)
  from Reshape.prems(2) obtain ht wd ch where
    n: "static_shape n = Inr (S4 ht wd ch)" and m: "m = ht * wd * ch" "0 < m"
    and ok: "reshape_ok n"
    unfolding reshape_ok_Reshape by blast
  from Reshape.prems(1) have s: "s = S2 m"
    by (auto simp: and_then_eq_Inr)
  from Reshape.IH [OF n ok] Reshape.prems obtain xs where
    t: "eval P X n = Inr (V4 xs)" and len: "length xs = length X"
    and c: "conforms (V4 xs) [length xs, ht, wd, ch]"
    by (auto simp: dyn_shape_def conforms_V4)
  from m have pos: "0 < ht * wd * ch" by simp
  from t m reshape_rows_conforming [OF c pos]
  have e: "eval P X (Reshape n m) = Inr (V2 (map (\<lambda>i. concat (concat i)) xs))"
    by simp
  from c m have "conforms (V2 (map (\<lambda>i. concat (concat i)) xs)) [length xs, m]"
    by (auto simp: image_elements_length)
  with e len s show ?case
    by (simp add: dyn_shape_def)
next
  case (MatMul n v)
  from MatMul.prems(1) obtain a m where
    n: "static_shape n = Inr (S2 a)" and v: "vshape v = [a, m]" and s: "s = S2 m"
    unfolding static_shape_MatMul by blast
  from MatMul.IH [OF n] MatMul.prems obtain xs where
    t: "eval P X n = Inr (V2 xs)" and len: "length xs = length X"
    and c: "conforms (V2 xs) [length xs, a]"
    by (auto simp: dyn_shape_def conforms_V2)
  from MatMul.prems(3) v have "conforms (P (vname v)) [a, m]"
    by simp
  from matmul_op_conforming [OF c this] obtain W where
    "matmul_op (S2 a) [a, m] (V2 xs) (P (vname v)) = Inr (V2 (map (matmul_row a m W) xs))"
    by blast
  with n v t have "eval P X (MatMul n v) = Inr (V2 (map (matmul_row a m W) xs))"
    by simp
  with len s show ?case
    using matmul_row_conforms [of a m W xs] by (simp add: dyn_shape_def)
next
  case (Sigmoid n)
  from Sigmoid.IH [of s] Sigmoid.prems show ?case
    by (auto simp: conforms_map_tval)
next
  case (ClipByValue n lo hi)
  from ClipByValue.IH [of s] ClipByValue.prems show ?case
    by (auto simp: conforms_map_tval)
qed

subsection \<open>Every operation works example by example\<close>

lemma example_map_tval:
  "conforms t (dyn_shape n s) \<Longrightarrow> k < n \<Longrightarrow>
   example k (map_tval f t) = map_tval f (example k t)"
  by (cases s) (auto simp: dyn_shape_def conforms_V2 conforms_V4 example_def map_tval_def)

lemma eval_example:
  assumes "static_shape g = Inr s" "reshape_ok g" "store_ok P g" "feed_ok X g"
    and "k < length X" "eval P X g = Inr t"
  shows "eval P [X ! k] g = Inr (example k t)"
  using assms
proof (induction g arbitrary: s t)
  case (Placeholder ht wd ch)
  from Placeholder.prems(4) have c: "conforms (V4 X) [length X, ht, wd, ch]"
    by simp
  with Placeholder.prems(6) have "t = V4 X"
    by simp
  with conforms_example_V4 [OF c Placeholder.prems(5)] show ?case
    by (simp add: example_def)
next
  case (Zeros m)
  then show ?case by (auto simp: example_def)
next
  case (Conv2d n v pad)
  from Conv2d.prems(1) obtain ht wd ch kh kw co oh ow where
    n: "static_shape n = Inr (S4 ht wd ch)" and v: "vshape v = [kh, kw, ch, co]"
    and oh: "windowed_output_size pad ht kh 1 = Inr oh"
    and ow: "windowed_output_size pad wd kw 1 = Inr ow"
    unfolding static_shape_Conv2d by blast
  from eval_sound [OF n, of P X] Conv2d.prems obtain xs where
    t: "eval P X n = Inr (V4 xs)" and len: "length xs = length X"
    and c: "conforms (V4 xs) [length xs, ht, wd, ch]"
    by (auto simp: dyn_shape_def conforms_V4)
  from Conv2d.IH [OF n _ _ _ _ t] Conv2d.prems
  have t1: "eval P [X ! k] n = Inr (V4 [xs ! k])"
    by (simp add: example_def)
  from Conv2d.prems(5) len have k: "k < length xs" by simp
  from conforms_example_V4 [OF c k]
  have c1: "conforms (V4 [xs ! k]) [length [xs ! k], ht, wd, ch]" by simp
  from Conv2d.prems(3) v have f: "conforms (P (vname v)) [kh, kw, ch, co]"
    by simp
  from f obtain F where F: "P (vname v) = V4 F"
    unfolding conforms_V4 by blast
  from conv2d_op_conforming [OF c f oh ow] F
  have r: "conv2d_op pad (S4 ht wd ch) [kh, kw, ch, co] (V4 xs) (P (vname v))
       = Inr (V4 (map (conv2d_image pad F kh kw ch co wd oh ow) xs))"
    by auto
  from conv2d_op_conforming [OF c1 f oh ow] F
  have r1: "conv2d_op pad (S4 ht wd ch) [kh, kw, ch, co] (V4 [xs ! k]) (P (vname v))
       = Inr (V4 (map (conv2d_image pad F kh kw ch co wd oh ow) [xs ! k]))"
    by auto
  from n v t r Conv2d.prems(6)
  have "t = V4 (map (conv2d_image pad F kh kw ch co wd oh ow) xs)"
    by simp
  with n v t1 r1 k show ?case
    by (simp add: example_def)
next
  case (Add n v)
  from Add.prems(1) obtain m where v: "vshape v = [m]"
    and alt: "(\<exists>d d'. static_shape n = Inr (S2 d) \<and> broadcast_dim d m = Inr d' \<and> s = S2 d')
         \<or> (\<exists>ht wd ch d'. static_shape n = Inr (S4 ht wd ch)
               \<and> broadcast_dim ch m = Inr d' \<and> s = S4 ht wd d')"
    unfolding static_shape_Add by blast
  from Add.prems(3) v have bias: "conforms (P (vname v)) [m]"
    by simp
  from alt show ?case
  proof (elim disjE exE conjE)
    fix d d'
    assume n: "static_shape n = Inr (S2 d)" and bd: "broadcast_dim d m = Inr d'"
    from eval_sound [OF n, of P X] Add.prems obtain xs where
      t: "eval P X n = Inr (V2 xs)" and len: "length xs = length X"
      and c: "conforms (V2 xs) [length xs, d]"
      by (auto simp: dyn_shape_def conforms_V2)
    from Add.IH [OF n _ _ _ _ t] Add.prems
    have t1: "eval P [X ! k] n = Inr (V2 [xs ! k])"
      by (simp add: example_def)
    from Add.prems(5) len have k: "k < length xs" by simp
    from conforms_example_V2 [OF c k]
    have c1: "conforms (V2 [xs ! k]) [length [xs ! k], d]" by simp
    from bias obtain ys where ys: "P (vname v) = V1 ys"
      unfolding conforms_V1 by blast
    from add_op_conforming_V2 [OF c bias bd] ys
    have r: "add_op (S2 d) [m] (V2 xs) (P (vname v))
         = Inr (V2 (map (add_bias d m d' ys) xs))"
      by auto
    from add_op_conforming_V2 [OF c1 bias bd] ys
    have r1: "add_op (S2 d) [m] (V2 [xs ! k]) (P (vname v))
         = Inr (V2 (map (add_bias d m d' ys) [xs ! k]))"
      by auto
    from n v t r Add.prems(6) have "t = V2 (map (add_bias d m d' ys) xs)"
      by simp
    with n v t1 r1 k show ?thesis
      by (simp add: example_def)
  next
    fix ht wd ch d'
    assume n: "static_shape n = Inr (S4 ht wd ch)" and bd: "broadcast_dim ch m = Inr d'"
    from eval_sound [OF n, of P X] Add.prems obtain xs where
      t: "eval P X n = Inr (V4 xs)" and len: "length xs = length X"
      and c: "conforms (V4 xs) [length xs, ht, wd, ch]"
      by (auto simp: dyn_shape_def conforms_V4)
    from Add.IH [OF n _ _ _ _ t] Add.prems
    have t1: "eval P [X ! k] n = Inr (V4 [xs ! k])"
      by (simp add: example_def)
    from Add.prems(5) len have k: "k < length xs" by simp
    from conforms_example_V4 [OF c k]
    have c1: "conforms (V4 [xs ! k]) [length [xs ! k], ht, wd, ch]" by simp
    from bias obtain ys where ys: "P (vname v) = V1 ys"
      unfolding conforms_V1 by blast
    from add_op_conforming_V4 [OF c bias bd] ys
    have r: "add_op (S4 ht wd ch) [m] (V4 xs) (P (vname v))
         = Inr (V4 (map (map (map (add_bias ch m d' ys))) xs))"
      by auto
    from add_op_conforming_V4 [OF c1 bias bd] ys
    have r1: "add_op (S4 ht wd ch) [m] (V4 [xs ! k]) (P (vname v))
         = Inr (V4 (map (map (map (add_bias ch m d' ys))) [xs ! k]))"
      by auto
    from n v t r Add.prems(6) have "t = V4 (map (map (map (add_bias ch m d' ys))) xs)"
      by simp
    with n v t1 r1 k show ?thesis
      by (simp add: example_def)
  qed
next
  case (Relu n)
  from Relu.prems(6) obtain u where u: "eval P X n = Inr u" and t: "t = map_tval relu u"
    by (auto simp: and_then_eq_Inr)
  from eval_sound [of n s P X] Relu.prems u
  have "conforms u (dyn_shape (length X) s)" by auto
  from example_map_tval [OF this Relu.prems(5)] Relu.IH [OF _ _ _ _ _ u] Relu.prems t
  show ?case by simp
next
  case (MaxPool n pad)
  from MaxPool.prems(1) obtain ht wd ch oh ow where
    n: "static_shape n = Inr (S4 ht wd ch)"
    and oh: "windowed_output_size pad ht 2 2 = Inr oh"
    and ow: "windowed_output_size pad wd 2 2 = Inr ow"
    unfolding static_shape_MaxPool by blast
  from eval_sound [OF n, of P X] MaxPool.prems obtain xs where
    t: "eval P X n = Inr (V4 xs)" and len: "length xs = length X"
    and c: "conforms (V4 xs) [length xs, ht, wd, ch]"
    by (auto simp: dyn_shape_def conforms_V4)
  from MaxPool.IH [OF n _ _ _ _ t] MaxPool.prems
  have t1: "eval P [X ! k] n = Inr (V4 [xs ! k])"
    by (simp add: example_def)
  from MaxPool.prems(5) len have k: "k < length xs" by simp
  from conforms_example_V4 [OF c k]
  have c1: "conforms (V4 [xs ! k]) [length [xs ! k], ht, wd, ch]" by simp
  note r = max_pool_op_conforming [OF c oh ow]
  note r1 = max_pool_op_conforming [OF c1 oh ow]
  from n t r MaxPool.prems(6) have "t = V4 (map (max_pool_image ht wd ch oh ow) xs)"
    by simp
  with n t1 r1 k show ?case
    by (simp add: example_def)
next
  case (Reshape n m)
  from Reshape.prems(2) obtain ht wd ch where
    n: "static_shape n = Inr (S4 ht wd ch)" and m: "m = ht * wd * ch" "0 < m"
    and ok: "reshape_ok n"
    unfolding reshape_ok_Reshape by blast
  from eval_sound [OF n ok, of P X] Reshape.prems obtain xs where
    t: "eval P X n = Inr (V4 xs)" and len: "length xs = length X"
    and c: "conforms (V4 xs) [length xs, ht, wd, ch]"
    by (auto simp: dyn_shape_def conforms_V4)
  from Reshape.IH [OF n ok _ _ _ t] Reshape.prems
  have t1: "eval P [X ! k] n = Inr (V4 [xs ! k])"
    by (simp add: example_def)
  from Reshape.prems(5) len have k: "k < length xs" by simp
  from conforms_example_V4 [OF c k]
  have c1: "conforms (V4 [xs ! k]) [length [xs ! k], ht, wd, ch]" by simp
  from m have pos: "0 < ht * wd * ch" by simp
  note r = reshape_rows_conforming [OF c pos]
  note r1 = reshape_rows_conforming [OF c1 pos]
  from t r m Reshape.prems(6) have "t = V2 (map (\<lambda>i. concat (concat i)) xs)"
    by simp
  with t1 r1 m k show ?case
    by (simp add: example_def)
next
  case (MatMul n v)
  from MatMul.prems(1) obtain a m where
    n: "static_shape n = Inr (S2 a)" and v: "vshape v = [a, m]"
    unfolding static_shape_MatMul by blast
  from eval_sound [OF n, of P X] MatMul.prems obtain xs where
    t: "eval P X n = Inr (V2 xs)" and len: "length xs = length X"
    and c: "conforms (V2 xs) [length xs, a]"
    by (auto simp: dyn_shape_def conforms_V2)
  from MatMul.IH [OF n _ _ _ _ t] MatMul.prems
  have t1: "eval P [X ! k] n = Inr (V2 [xs ! k])"
    by (simp add: example_def)
  from MatMul.prems(5) len have k: "k < length xs" by simp
  from conforms_example_V2 [OF c k]
  have c1: "conforms (V2 [xs ! k]) [length [xs ! k], a]" by simp
  from MatMul.prems(3) v have f: "conforms (P (vname v)) [a, m]"
    by simp
  from f obtain W where W: "P (vname v) = V2 W"
    unfolding conforms_V2 by blast
  from matmul_op_conforming [OF c f] W
  have r: "matmul_op (S2 a) [a, m] (V2 xs) (P (vname v))
       = Inr (V2 (map (matmul_row a m W) xs))"
    by auto
  from matmul_op_conforming [OF c1 f] W
  have r1: "matmul_op (S2 a) [a, m] (V2 [xs ! k]) (P (vname v))
       = Inr (V2 (map (matmul_row a m W) [xs ! k]))"
    by auto
  from n v t r MatMul.prems(6) have "t = V2 (map (matmul_row a m W) xs)"
    by simp
  with n v t1 r1 k show ?case
    by (simp add: example_def)
next
  case (Sigmoid n)
  from Sigmoid.prems(6) obtain u where u: "eval P X n = Inr u" and t: "t = map_tval sigmoid u"
    by (auto simp: and_then_eq_Inr)
  from eval_sound [of n s P X] Sigmoid.prems u
  have "conforms u (dyn_shape (length X) s)" by auto
  from example_map_tval [OF this Sigmoid.prems(5)] Sigmoid.IH [OF _ _ _ _ _ u] Sigmoid.prems t
  show ?case by simp
next
  case (ClipByValue n lo hi)
  from ClipByValue.prems(6) obtain u where u: "eval P X n = Inr u"
    and t: "t = map_tval (clip_by_value lo hi) u"
    by (auto simp: and_then_eq_Inr)
  from eval_sound [of n s P X] ClipByValue.prems u
  have "conforms u (dyn_shape (length X) s)" by auto
  from example_map_tval [OF this ClipByValue.prems(5)]
    ClipByValue.IH [OF _ _ _ _ _ u] ClipByValue.prems t
  show ?case by simp
qed

subsection \<open>The fully-connected setup\<close>

lemma fc_setup_body_Inr:
  assumes "fc_setup_body fcs i st = Inr st'" "Suc i < length fcs"
  shows "fst st' = fst st @ [fc_var fcs i]"
    and "snd st' = snd st @ [fc_bias_var fcs i]"
    and "0 < fcs ! i" "0 < fcs ! Suc i"
  using assms
  by (auto simp: fc_setup_body_def py_get_nat py_get_Suc and_then_eq_Inr w_eq_Inr b_eq_Inr
      fc_var_def fc_bias_var_def)

lemma fc_setup_loop:
  assumes "for_loop [0..<n] (fc_setup_body fcs) ([], []) = Inr fc" "n < length fcs"
  shows "fst fc = map (fc_var fcs) [0..<n] \<and> snd fc = map (fc_bias_var fcs) [0..<n]
       \<and> (\<forall>i<n. 0 < fcs ! i \<and> 0 < fcs ! Suc i)"
  using assms
proof (induction n arbitrary: fc)
  case 0
  then show ?case by auto
next
  case (Suc n)
  from Suc.prems(1) obtain st where
    st: "for_loop [0..<n] (fc_setup_body fcs) ([], []) = Inr st"
    and body: "fc_setup_body fcs n st = Inr fc"
    unfolding for_loop_Suc_Inr by blast
  from Suc.prems have n: "n < length fcs" "Suc n < length fcs" by simp_all
  note IH = Suc.IH [OF st n(1)]
  note B = fc_setup_body_Inr [OF body n(2)]
  from IH B show ?case
    by (simp add: less_Suc_eq)
qed

subsection \<open>The static shapes of the convolution stack\<close>

lemma windowed_conv:
  assumes "windowed_output_size pad (nat d) (nat k) 1 = Inr oh" "0 \<le> d" "0 < k"
  shows "oh = nat (conv_out_size d pad k 1)"
    and "0 \<le> conv_out_size d pad k 1"
    and "pad = VALID \<Longrightarrow> 0 < conv_out_size d pad k 1"
  using assms
  by (cases pad; simp add: windowed_output_size_def conv_out_size_def split: if_splits; linarith)+


lemma broadcast_dim_same [simp]: "broadcast_dim d d = Inr d"
  by (simp add: broadcast_dim_def)

lemma conv_dim_snoc: "conv_dim pad d (ks @ [k]) = conv_out_size (conv_dim pad d ks) pad k 1"
  by (simp add: conv_dim_def)

lemma zip_map_upt_Suc:
  "zip (map f [0..<Suc n]) (map g [0..<Suc n]) = zip (map f [0..<n]) (map g [0..<n]) @ [(f n, g n)]"
  by simp

lemma static_conv_stack:
  assumes "static_shape (conv_stack pad (Placeholder (nat ht) (nat wd) (nat (fms ! 0)))
             (zip (map (conv_var ks fms) [0..<n]) (map (conv_bias_var fms) [0..<n]))) = Inr s"
    and "n \<le> length ks" "0 \<le> ht" "0 \<le> wd" "\<forall>i<n. 0 < ks ! i"
  shows "s = S4 (nat (conv_dim pad ht (take n ks))) (nat (conv_dim pad wd (take n ks)))
               (nat (fms ! n))
       \<and> 0 \<le> conv_dim pad ht (take n ks) \<and> 0 \<le> conv_dim pad wd (take n ks)
       \<and> (pad = VALID \<longrightarrow>
            (\<forall>j<n. 0 < conv_dim pad ht (take (Suc j) ks) \<and> 0 < conv_dim pad wd (take (Suc j) ks)))"
  using assms
proof (induction n arbitrary: s)
  case 0
  then show ?case by (simp add: conv_dim_def)
next
  case (Suc n)
  let ?c = "conv_stack pad (Placeholder (nat ht) (nat wd) (nat (fms ! 0)))
             (zip (map (conv_var ks fms) [0..<n]) (map (conv_bias_var fms) [0..<n]))"
  from Suc.prems(1)
  have st: "static_shape (Relu (Add (Conv2d ?c (conv_var ks fms n) pad) (conv_bias_var fms n)))
              = Inr s"
    unfolding zip_map_upt_Suc conv_stack_snoc .
  then have add: "static_shape (Add (Conv2d ?c (conv_var ks fms n) pad) (conv_bias_var fms n))
              = Inr s"
    by simp
  from Suc.prems have n: "n < length ks" "n \<le> length ks" "0 < ks ! n" "\<forall>i<n. 0 < ks ! i"
    by simp_all
  from add obtain s1 where
    conv: "static_shape (Conv2d ?c (conv_var ks fms n) pad) = Inr s1"
    unfolding static_shape_Add by blast
  then obtain h1 w1 c1 kh kw co oh ow where
    c: "static_shape ?c = Inr (S4 h1 w1 c1)"
    and v: "vshape (conv_var ks fms n) = [kh, kw, c1, co]"
    and oh: "windowed_output_size pad h1 kh 1 = Inr oh"
    and ow: "windowed_output_size pad w1 kw 1 = Inr ow" and s1: "s1 = S4 oh ow co"
    unfolding static_shape_Conv2d by blast
  note IH = Suc.IH [OF c n(2) Suc.prems(3,4) n(4)]
  from v have k: "kh = nat (ks ! n)" "kw = nat (ks ! n)" "co = nat (fms ! Suc n)"
    by (simp_all add: conv_var_def)
  from IH have h1: "h1 = nat (conv_dim pad ht (take n ks))"
    and w1: "w1 = nat (conv_dim pad wd (take n ks))"
    and nn: "0 \<le> conv_dim pad ht (take n ks)" "0 \<le> conv_dim pad wd (take n ks)"
    by simp_all
  note H = windowed_conv [OF oh [unfolded h1 k] nn(1) n(3)]
  note W = windowed_conv [OF ow [unfolded w1 k] nn(2) n(3)]
  from n(1) have tk: "take (Suc n) ks = take n ks @ [ks ! n]"
    by (simp add: take_Suc_conv_app_nth)
  from add conv s1 k have s: "s = S4 oh ow (nat (fms ! Suc n))"
    by (auto simp: conv_bias_var_def and_then_eq_Inr)
  from s H W IH show ?case
    unfolding tk conv_dim_snoc
    by (auto simp: less_Suc_eq tk conv_dim_snoc)
qed

subsection \<open>A model that the constructor returns\<close>

lemma conv_dim_SAME [simp]: "conv_dim SAME d ks = d"
  by (induction ks rule: rev_induct) (simp_all add: conv_dim_def conv_out_size_def)



lemma subnodes_fc_hidden: "set (subnodes x) \<subseteq> set (subnodes (fc_hidden x ls))"
  by (induction x ls rule: fc_hidden.induct) auto



lemma static_fc_stack_rank2:
  assumes "static_shape (fc_stack (Reshape n m) ls) = Inr s"
  shows "\<exists>d. s = S2 d"
proof (cases ls rule: rev_cases)
  case Nil
  with assms show ?thesis by (auto simp: and_then_eq_Inr)
next
  case (snoc ls' l)
  obtain fw fb where l: "l = (fw, fb)" by (cases l)
  from assms snoc l obtain s1 where
    "static_shape (Add (MatMul (fc_hidden (Reshape n m) ls') fw) fb) = Inr s"
    by (simp add: fc_stack_snoc)
  then obtain s2 where "static_shape (MatMul (fc_hidden (Reshape n m) ls') fw) = Inr s2"
    and alt: "(\<exists>d d'. s2 = S2 d \<and> s = S2 d') \<or> (\<exists>ht wd ch d'. s2 = S4 ht wd ch \<and> s = S4 ht wd d')"
    unfolding static_shape_Add by auto
  then show ?thesis
    unfolding static_shape_MatMul by auto
qed


lemma reshape_ok_conv_stack [simp]: "reshape_ok (conv_stack pad x ls) = reshape_ok x"
  by (induction pad x ls rule: conv_stack.induct) simp_all

lemma reshape_ok_fc_stack [simp]: "reshape_ok (fc_stack x ls) = reshape_ok x"
  by (induction x ls rule: fc_stack.induct) simp_all

lemma feed_ok_conv_stack [simp]: "feed_ok X (conv_stack pad x ls) = feed_ok X x"
  by (induction pad x ls rule: conv_stack.induct) simp_all

lemma feed_ok_fc_stack [simp]: "feed_ok X (fc_stack x ls) = feed_ok X x"
  by (induction x ls rule: fc_stack.induct) simp_all

lemma built_model:
  assumes "fst (DScaleModel pad h si ht wd fms_r ks_r fc_r) = Inr m"
  obtains ph pw pc where
    "length (h fms_r) = Suc (length (h ks_r))" "h ks_r \<noteq> []" "0 \<le> ht" "0 \<le> wd"
    "\<forall>i<length (h ks_r). 0 < h ks_r ! i \<and> 0 < h fms_r ! i \<and> 0 < h fms_r ! Suc i"
    "\<forall>i<length (h fc_r).
        0 < derived_fc_sizes pad ht wd (h fms_r) (h ks_r) (h fc_r) ! i
      \<and> 0 < derived_fc_sizes pad ht wd (h fms_r) (h ks_r) (h fc_r) ! Suc i"
    "static_shape (conv_graph pad ht wd (h fms_r) (h ks_r))
       = Inr (S4 (nat (conv_dim pad ht (h ks_r))) (nat (conv_dim pad wd (h ks_r)))
                 (nat (last (h fms_r))))"
    "0 \<le> conv_dim pad ht (h ks_r)" "0 \<le> conv_dim pad wd (h ks_r)"
    "pad = VALID \<longrightarrow> (\<forall>j<length (h ks_r).
        0 < conv_dim pad ht (take (Suc j) (h ks_r)) \<and> 0 < conv_dim pad wd (take (Suc j) (h ks_r)))"
    "static_shape (MaxPool (conv_graph pad ht wd (h fms_r) (h ks_r)) pad) = Inr (S4 ph pw pc)"
    "preds m = ClipByValue
       (fc_stack (Reshape (MaxPool (conv_graph pad ht wd (h fms_r) (h ks_r)) pad) (ph * pw * pc))
          (fc_layers (derived_fc_sizes pad ht wd (h fms_r) (h ks_r) (h fc_r)))) 0.1 0.9"
    "\<exists>s. static_shape (preds m) = Inr s"
    "snd (DScaleModel pad h si ht wd fms_r ks_r fc_r)
       = h(fc_r := derived_fc_sizes pad ht wd (h fms_r) (h ks_r) (h fc_r))"
    "length (conv_ws m) = length (h ks_r)" "length (conv_bs m) = length (h ks_r)"
    "length (fc_ws m) = length (h fc_r)" "length (fc_bs m) = length (h fc_r)"
proof -
  let ?fms = "h fms_r" and ?ks = "h ks_r"
  let ?dfs = "derived_fc_sizes pad ht wd (h fms_r) (h ks_r) (h fc_r)"
  from assms obtain inp cs flat fc g where
    len: "int (length ?ks) = int (length ?fms) - 1"
    and ph: "conv_setup_phase pad ht wd ?fms ?ks = Inr (inp, cs, flat)"
    and hp: "snd (DScaleModel pad h si ht wd fms_r ks_r fc_r) = h(fc_r := flat # h fc_r)"
    and fcl: "for_loop (py_range (int (length (h fc_r)))) (fc_setup_body (flat # h fc_r)) ([], [])
                = Inr fc"
    and gp: "generate_predictions pad inp (cs_ws cs) (cs_bs cs) (fst fc) (snd fc) = Inr g"
    and m: "m = \<lparr>scale_index = si, height = ht, width = wd,
          conv_layer_fms = fms_r, kernel_sizes = ks_r, fc_layer_sizes = fc_r,
          input_frames = inp,
          conv_ws = cs_ws cs, conv_bs = cs_bs cs, fc_ws = fst fc, fc_bs = snd fc,
          preds = g\<rparr>"
    by (rule DScaleModel_Inr)
  note S = conv_setup_phase_Inr [OF ph len]
  from S(9) have dfs: "?dfs = flat # h fc_r"
    by (simp add: derived_fc_sizes_def)
  from len have l1: "length ?fms = Suc (length ?ks)" by simp
  from fcl have "for_loop [0..<length (h fc_r)] (fc_setup_body ?dfs) ([], []) = Inr fc"
    by (simp add: py_range_def dfs)
  from fc_setup_loop [OF this] dfs
  have F: "fst fc = map (fc_var ?dfs) [0..<length (h fc_r)]"
    "snd fc = map (fc_bias_var ?dfs) [0..<length (h fc_r)]"
    "\<forall>i<length (h fc_r). 0 < ?dfs ! i \<and> 0 < ?dfs ! Suc i"
    by simp_all
  from F(1,2) dfs have layers: "zip (fst fc) (snd fc) = fc_layers ?dfs"
    by (simp add: fc_layers_def)
  have cg: "conv_stack pad inp (zip (cs_ws cs) (cs_bs cs)) = conv_graph pad ht wd ?fms ?ks"
    by (simp add: conv_graph_def S(1,4,5))
  note G = generate_predictions_Inr [OF gp, unfolded cg layers]
  from G(1) S(4) have ne: "?ks \<noteq> []" by auto
  from G(4) obtain ph pw pc where
    pool: "static_shape (MaxPool (conv_graph pad ht wd ?fms ?ks) pad) = Inr (S4 ph pw pc)"
    and g: "g = ClipByValue
       (fc_stack (Reshape (MaxPool (conv_graph pad ht wd ?fms ?ks) pad) (ph * pw * pc))
          (fc_layers ?dfs)) 0.1 0.9"
    by blast
  from pool obtain s' where cs: "static_shape (conv_graph pad ht wd ?fms ?ks) = Inr s'"
    unfolding static_shape_MaxPool by blast
  from S(8) have kpos: "\<forall>i<length ?ks. 0 < ?ks ! i" by simp
  from l1 have lst: "?fms ! length ?ks = last ?fms"
    by (cases "?fms" rule: rev_cases) (simp_all add: nth_append)
  note C = static_conv_stack [OF cs [unfolded conv_graph_def] order_refl S(2,3) kpos,
      unfolded take_all [OF order_refl] lst]
  from C cs have cshape: "static_shape (conv_graph pad ht wd ?fms ?ks)
       = Inr (S4 (nat (conv_dim pad ht ?ks)) (nat (conv_dim pad wd ?ks)) (nat (last ?fms)))"
    by simp
  from G(5) m g have sg: "\<exists>s. static_shape (preds m) = Inr s"
    by simp
  from hp dfs have hp': "snd (DScaleModel pad h si ht wd fms_r ks_r fc_r) = h(fc_r := ?dfs)"
    by simp
  from m g have pm: "preds m = ClipByValue
       (fc_stack (Reshape (MaxPool (conv_graph pad ht wd ?fms ?ks) pad) (ph * pw * pc))
          (fc_layers ?dfs)) 0.1 0.9"
    by simp
  from C have nn: "0 \<le> conv_dim pad ht ?ks" "0 \<le> conv_dim pad wd ?ks"
    and pos: "pad = VALID \<longrightarrow> (\<forall>j<length ?ks.
        0 < conv_dim pad ht (take (Suc j) ?ks) \<and> 0 < conv_dim pad wd (take (Suc j) ?ks))"
    by simp_all
  from m S(4,5) F(1,2) have lens:
    "length (conv_ws m) = length ?ks" "length (conv_bs m) = length ?ks"
    "length (fc_ws m) = length (h fc_r)" "length (fc_bs m) = length (h fc_r)"
    by simp_all
  from that [OF l1 ne S(2,3,8) F(3) cshape nn pos pool pm sg hp' lens] show thesis .
qed








subsection \<open>The flattened feature count\<close>




subsection \<open>Non-positive derived dimensions\<close>




text \<open>
  A construction that fails after line 89 has already extended the caller's list: with 1x1
  frames and the small configuration the allocation of the first fully-connected weight is
  rejected, and the list \<open>[3, 1]\<close> is left as \<open>[0, 3, 1]\<close>.
\<close>

lemma failed_construction_keeps_insertion:
  "isl (fst (DScaleModel VALID small_heap 0 1 1 0 1 2))
   \<and> small_heap 2 = [3, 1]
   \<and> snd (DScaleModel VALID small_heap 0 1 1 0 1 2) 2 = [0, 3, 1]"
  by code_simp

subsection \<open>What a successful evaluation says about the feed and the session\<close>

lemma eval_Inr_feed_ok: "eval P X g = Inr t \<Longrightarrow> feed_ok X g"
  by (induction g arbitrary: t) (auto simp: and_then_eq_Inr split: if_splits)

lemma conv2d_op_Inr: "conv2d_op pad s fs t f = Inr r \<Longrightarrow> conforms f fs"
  by (auto simp: conv2d_op_def split: sshape.splits list.splits tval.splits if_splits)

lemma add_op_Inr: "add_op s bs t bias = Inr r \<Longrightarrow> conforms bias bs"
  by (auto simp: add_op_def split: sshape.splits list.splits tval.splits if_splits)

lemma matmul_op_Inr: "matmul_op s ws t wv = Inr r \<Longrightarrow> conforms wv ws"
  by (auto simp: matmul_op_def split: sshape.splits list.splits tval.splits if_splits)

lemma eval_Inr_store_ok: "eval P X g = Inr t \<Longrightarrow> store_ok P g"
proof (induction g arbitrary: t)
  case (Conv2d g v pad)
  then show ?case
    by (auto simp: and_then_eq_Inr dest: conv2d_op_Inr)
next
  case (Add g v)
  then show ?case
    by (auto simp: and_then_eq_Inr dest: add_op_Inr)
next
  case (MatMul g v)
  then show ?case
    by (auto simp: and_then_eq_Inr dest: matmul_op_Inr)
qed (auto simp: and_then_eq_Inr)

lemma eval_fc_stack_operand:
  "eval P X (fc_stack x ls) = Inr t \<Longrightarrow> \<exists>t'. eval P X x = Inr t'"
  by (induction x ls arbitrary: t rule: fc_stack.induct) (auto simp: and_then_eq_Inr)

lemma eval_Reshape_positive: "eval P X (Reshape n k) = Inr t \<Longrightarrow> 0 < k"
  by (auto simp: and_then_eq_Inr reshape_rows_def Let_def split: if_splits)


subsection \<open>The graph of a constructed object\<close>



subsection \<open>The shape and the range of the predictions\<close>

lemma small_prediction_exists:
  "\<exists>t. predict small_model small_batch small_store = Inr t"
proof -
  have "static_shape (preds small_model) = Inr (S2 1)"
    unfolding small_model_def by code_simp
  moreover have "reshape_ok (preds small_model)"
    unfolding small_model_def by code_simp
  moreover have "store_ok small_store (preds small_model)"
    unfolding small_model_def by code_simp
  moreover have "feed_ok small_batch (preds small_model)"
    unfolding small_model_def by code_simp
  ultimately show ?thesis
    unfolding predict_def using eval_sound by blast
qed




subsection \<open>Batch independence\<close>

text \<open>
  C9: whenever the prediction for a batch is defined, it is a matrix with one row per example,
  and the prediction for the batch that holds only example \<open>k\<close> is row \<open>k\<close> of it.
\<close>

theorem batch_independence:
  assumes "fst (DScaleModel pad h si ht wd fms_r ks_r fc_r) = Inr m"
    and "predict m X P = Inr t" and "k < length X"
  shows "\<exists>out. t = V2 out \<and> length out = length X
           \<and> predict m [X ! k] P = Inr (V2 [out ! k])"
proof -
  let ?cg = "conv_graph pad ht wd (h fms_r) (h ks_r)"
  let ?dfs = "derived_fc_sizes pad ht wd (h fms_r) (h ks_r) (h fc_r)"
  from assms(1) obtain ph pw pc where
    pool: "static_shape (MaxPool ?cg pad) = Inr (S4 ph pw pc)"
    and pm: "preds m = ClipByValue
       (fc_stack (Reshape (MaxPool ?cg pad) (ph * pw * pc)) (fc_layers ?dfs)) 0.1 0.9"
    and sg: "\<exists>s. static_shape (preds m) = Inr s"
    by (rule built_model)
  let ?R = "Reshape (MaxPool ?cg pad) (ph * pw * pc)"
  from assms(2) have ev: "eval P X (preds m) = Inr t"
    by (simp add: predict_def)
  then have feed: "feed_ok X (preds m)" and store: "store_ok P (preds m)"
    by (rule eval_Inr_feed_ok, rule eval_Inr_store_ok)
  from ev pm obtain t1 where "eval P X (fc_stack ?R (fc_layers ?dfs)) = Inr t1"
    by (auto simp: and_then_eq_Inr)
  from eval_fc_stack_operand [OF this] obtain t2 where "eval P X ?R = Inr t2"
    by blast
  then have "0 < ph * pw * pc"
    by (rule eval_Reshape_positive)
  with pool pm have rs: "reshape_ok (preds m)"
    by (simp add: conv_graph_def)
  from sg pm obtain s where s: "static_shape (preds m) = Inr s"
    and "static_shape (fc_stack ?R (fc_layers ?dfs)) = Inr s"
    by auto
  from static_fc_stack_rank2 [OF this(2)] obtain d where d: "s = S2 d"
    by blast
  from eval_sound [OF s rs store feed] ev d obtain out where
    out: "t = V2 out" "length out = length X"
    by (auto simp: dyn_shape_def conforms_V2)
  from eval_example [OF s rs store feed assms(3) ev] out show ?thesis
    by (simp add: predict_def example_def)
qed

theorem batch_independence_witness:
  "\<exists>out. predict small_model small_batch small_store = Inr (V2 out)
       \<and> length out = 2
       \<and> predict small_model [small_batch ! 1] small_store = Inr (V2 [out ! 1])"
proof -
  from small_prediction_exists obtain t where
    t: "predict small_model small_batch small_store = Inr t"
    by blast
  have "1 < length small_batch"
    by (simp add: small_batch_def)
  from batch_independence [OF small_model_built t this] t show ?thesis
    by (auto simp: small_batch_def)
qed

end
